theory Spec2Isabelle
  imports Main "HOL-Library.Sublist"
begin

section \<open>Strings as the chat panel uses them\<close>

text \<open>
  The component \<^verbatim>\<open>chat-panel.tsx\<close> works on JavaScript strings. A string is modelled as a
  \<^typ>\<open>string\<close>, one \<^typ>\<open>char\<close> per code unit, which covers the texts whose code units
  are below 256; the code units the panel inspects (\<^verbatim>\<open>event:\<close>, \<^verbatim>\<open>data:\<close>, line feeds,
  white space) are among them. \<^verbatim>\<open>startsWith\<close> is \<^const>\<open>prefix\<close>, \<^verbatim>\<open>includes\<close> is
  \<^const>\<open>sublist\<close>, \<^verbatim>\<open>slice(n)\<close> is \<^const>\<open>drop\<close> and \<^verbatim>\<open>+\<close> is \<^const>\<open>append\<close>.
\<close>

definition LF :: string where
  "LF = [CHR 0x0A]"

text \<open>The white space of \<^verbatim>\<open>trim\<close>, \<^verbatim>\<open>trimStart\<close> and \<^verbatim>\<open>trimEnd\<close>: tab, line feed,
  vertical tab, form feed, carriage return, space and no-break space.\<close>

definition isWhiteSpace :: "char \<Rightarrow> bool" where
  "isWhiteSpace c \<longleftrightarrow>
     c = CHR 0x09 \<or> c = CHR 0x0A \<or> c = CHR 0x0B \<or> c = CHR 0x0C \<or> c = CHR 0x0D \<or>
     c = CHR 0x20 \<or> c = CHR 0xA0"

definition trimStart :: "string \<Rightarrow> string" where
  "trimStart s = dropWhile isWhiteSpace s"

definition trimEnd :: "string \<Rightarrow> string" where
  "trimEnd s = rev (dropWhile isWhiteSpace (rev s))"

definition trim :: "string \<Rightarrow> string" where
  "trim s = trimStart (trimEnd s)"

text \<open>
  \<^verbatim>\<open>s.split(sep)\<close>: the pieces of \<open>s\<close> between the occurrences of \<open>sep\<close>, found from the
  left and not overlapping. With the empty separator the string falls into its code units.
\<close>

function split :: "string \<Rightarrow> string \<Rightarrow> string list" where
  "split sep [] = (if sep = [] then [] else [[]])"
| "split sep (c # cs) =
     (if sep = [] then map (\<lambda>x. [x]) (c # cs)
      else if prefix sep (c # cs) then [] # split sep (drop (length sep) (c # cs))
      else (let r = split sep cs in (c # hd r) # tl r))"
  by pat_completeness auto
termination
  by (relation "measure (\<lambda>(sep, s). length s)") (auto simp: prefix_def)

text \<open>\<^verbatim>\<open>xs.join(sep)\<close>.\<close>

fun join :: "string \<Rightarrow> string list \<Rightarrow> string" where
  "join sep [] = []"
| "join sep [x] = x"
| "join sep (x # y # ys) = x @ sep @ join sep (y # ys)"

section \<open>Parsing one server-sent event block\<close>

record sse =
  event :: string
  data :: string

text \<open>The \<^verbatim>\<open>for (const rawLine of lines)\<close> loop of \<^verbatim>\<open>parseSseBlock\<close>, with its two
  variables \<^verbatim>\<open>event\<close> and \<^verbatim>\<open>dataLines\<close>.\<close>

fun scanLines :: "string \<Rightarrow> string list \<Rightarrow> string list \<Rightarrow> string \<times> string list" where
  "scanLines ev dataLines [] = (ev, dataLines)"
| "scanLines ev dataLines (rawLine # rest) =
     (let line = trimEnd rawLine in
      if line = [] then scanLines ev dataLines rest
      else if prefix ''event:'' line then scanLines (trim (drop 6 line)) dataLines rest
      else if prefix ''data:'' line
        then scanLines ev (dataLines @ [trimStart (drop 5 line)]) rest
      else scanLines ev dataLines rest)"

definition parseSseBlock :: "string \<Rightarrow> sse option" where
  "parseSseBlock block =
     (let lines = split LF block;
          (ev, dataLines) = scanLines ''message'' [] lines
      in if dataLines = [] then None
         else Some \<lparr>event = ev, data = join LF dataLines\<rparr>)"

text \<open>
  The events of a stream text: the parsed blocks among its complete (blank-line terminated)
  blocks, in order. Used to state what a stream contains.
\<close>

definition sseEvents :: "string \<Rightarrow> sse list" where
  "sseEvents stream = List.map_filter parseSseBlock (butlast (split (LF @ LF) stream))"

section \<open>Messages, payloads and the state of the panel\<close>

text \<open>
  The TypeScript types of the component, as records. An optional field is an \<open>option\<close>.
  \<^verbatim>\<open>UiMessage\<close> has the fields \<^verbatim>\<open>id\<close>, \<^verbatim>\<open>role\<close>, \<^verbatim>\<open>text\<close>, \<^verbatim>\<open>data\<close>, here with the
  prefix \<open>msg_\<close>; the field \<^verbatim>\<open>data\<close> of \<^verbatim>\<open>ChatResponse\<close> is \<open>response_data\<close>. The type
  \<^verbatim>\<open>unknown\<close> of both \<^verbatim>\<open>data\<close> fields is the type parameter \<open>'d\<close>, and \<open>None\<close> is
  \<^verbatim>\<open>undefined\<close>.
\<close>

datatype role = user | assistant

record 'd UiMessage =
  msg_id :: string
  msg_role :: role
  msg_text :: string
  msg_data :: "'d option"

record 'd ChatResponse =
  conversation_id :: string
  assistant_message :: string
  receipt_id :: "string option"
  response_data :: "'d option"

record StreamDelta =
  content :: "string option"

text \<open>
  \<^verbatim>\<open>parseJson\<close> casts without a check, so the \<^verbatim>\<open>message\<close> of an error payload is at run time
  whatever JSON value the server wrote there. These are the JSON values; \<open>'n\<close> is the type
  of numbers, and an object is given by its own properties.
\<close>

datatype 'n json =
  JNull | JBool bool | JNum 'n | JStr string | JArr "'n json list" | JObj "(string \<times> 'n json) list"

text \<open>
  The truthiness of a JSON value (\<^verbatim>\<open>if (v)\<close>, \<^verbatim>\<open>v || w\<close>): \<^verbatim>\<open>null\<close>, \<^verbatim>\<open>false\<close>, zero and the
  empty string are falsy. \<open>falsy\<close> tells which numbers are (\<^verbatim>\<open>0\<close> and \<^verbatim>\<open>-0\<close>).
\<close>

fun ToBoolean :: "('n \<Rightarrow> bool) \<Rightarrow> 'n json \<Rightarrow> bool" where
  "ToBoolean falsy JNull = False"
| "ToBoolean falsy (JBool b) = b"
| "ToBoolean falsy (JNum n) = (\<not> falsy n)"
| "ToBoolean falsy (JStr s) = (s \<noteq> [])"
| "ToBoolean falsy (JArr xs) = True"
| "ToBoolean falsy (JObj kvs) = True"

text \<open>
  The conversion of a JSON value to a string, as \<^verbatim>\<open>new Error(v)\<close> performs it; \<open>None\<close> when
  it throws a \<^verbatim>\<open>TypeError\<close>. \<open>writeNum\<close> writes a number. An array is the join by commas of its
  elements, \<^verbatim>\<open>null\<close> counting as the empty string. An object is \<^verbatim>\<open>[object Object]\<close>, unless
  it has a property \<^verbatim>\<open>toString\<close> of its own: that value is not a function, and the object
  cannot be converted.
\<close>

fun ToString :: "('n \<Rightarrow> string) \<Rightarrow> 'n json \<Rightarrow> string option" where
  "ToString writeNum JNull = Some ''null''"
| "ToString writeNum (JBool b) = Some (if b then ''true'' else ''false'')"
| "ToString writeNum (JNum n) = Some (writeNum n)"
| "ToString writeNum (JStr s) = Some s"
| "ToString writeNum (JArr xs) =
     (let parts = map (\<lambda>x. if x = JNull then Some [] else ToString writeNum x) xs
      in if None \<in> set parts then None else Some (join '','' (map the parts)))"
| "ToString writeNum (JObj kvs) =
     (if ''toString'' \<in> set (map fst kvs) then None else Some ''[object Object]'')"

text \<open>The payload of an \<^verbatim>\<open>error\<close> event, \<^verbatim>\<open>{ message? }\<close>. \<open>None\<close> is \<^verbatim>\<open>undefined\<close>: the field is
  missing, or the payload is not an object.\<close>

record 'n StreamError =
  message :: "'n json option"

text \<open>The body \<^verbatim>\<open>{ error?: { message? } }\<close> that \<^verbatim>\<open>parseApiError\<close> reads; again \<open>None\<close> is
  \<^verbatim>\<open>undefined\<close>.\<close>

record 'n ApiErrorDetail =
  detail_message :: "'n json option"

record 'n ApiErrorBody =
  error :: "'n ApiErrorDetail option"

record EditableReceipt =
  rcpt_id :: string
  vendor_name :: string
  receipt_number :: string
  payment_method :: string
  status :: string
  currency :: string
  issue_date :: string
  subtotal :: string
  tax :: string
  total :: string

record File =
  name :: string

text \<open>The \<^verbatim>\<open>useState\<close> cells of \<^verbatim>\<open>ChatPanel\<close> that the chat functions read and write
  (\<^verbatim>\<open>file\<close> is \<open>file'\<close>).\<close>

record 'd ui =
  conversationId :: string
  input :: string
  file' :: "File option"
  messages :: "'d UiMessage list"
  loading :: bool

text \<open>The cells of the manual-correction editor.\<close>

record editor =
  editReceiptId :: string
  editableReceipt :: "EditableReceipt option"
  editorLoading :: bool
  editorMessage :: string

text \<open>A thrown instance of \<^verbatim>\<open>Error\<close> (or of its subclass \<^verbatim>\<open>TypeError\<close>), with its
  \<^verbatim>\<open>message\<close>.\<close>

datatype exn = Error string

text \<open>
  \<^verbatim>\<open>JSON.parse\<close> belongs to the platform. \<^verbatim>\<open>parseJson<T>\<close> calls it and asserts the type
  \<open>T\<close>, giving \<^verbatim>\<open>null\<close> when it throws; the parser at each type the panel asks for is a
  parameter, \<open>None\<close> being \<^verbatim>\<open>null\<close> (a text that does not parse, or the JSON \<^verbatim>\<open>null\<close>).
\<close>

record ('d, 'n) JSON =
  parseDelta :: "string \<Rightarrow> StreamDelta option"
  parseError :: "string \<Rightarrow> 'n StreamError option"
  parseFinal :: "string \<Rightarrow> 'd ChatResponse option"
  parseErrorBody :: "string \<Rightarrow> 'n ApiErrorBody option"
  numberToString :: "'n \<Rightarrow> string"
  numberFalsy :: "'n \<Rightarrow> bool"
  typeErrorMessage :: string

definition parseJson :: "(string \<Rightarrow> 'a option) \<Rightarrow> string \<Rightarrow> 'a option" where
  "parseJson JSON_parse v = JSON_parse v"

text \<open>
  Beside the parsers the record holds what the platform does with a number (how it is
  written, whether it is falsy) and the message of the \<^verbatim>\<open>TypeError\<close> it throws for a value
  that cannot be converted to a string.

  \<^verbatim>\<open>new Error(v)\<close> for a JSON value \<open>v\<close>: the error whose message is \<open>v\<close> as a string, or the
  \<^verbatim>\<open>TypeError\<close> of the failed conversion.
\<close>

definition newError :: "('d, 'n) JSON \<Rightarrow> 'n json \<Rightarrow> exn" where
  "newError J v =
     (case ToString (numberToString J) v of
        Some s \<Rightarrow> Error s
      | None \<Rightarrow> Error (typeErrorMessage J))"

text \<open>\<^verbatim>\<open>parsed?.error?.message\<close> for \<^verbatim>\<open>parsed = parseJson(raw)\<close>: the value at
  \<^verbatim>\<open>error.message\<close> of the parsed body, if there is one.\<close>

definition errorMessageOf :: "('d, 'n) JSON \<Rightarrow> string \<Rightarrow> 'n json option" where
  "errorMessageOf J raw =
     (case parseJson (parseErrorBody J) raw of
        None \<Rightarrow> None
      | Some parsed \<Rightarrow> (case error parsed of None \<Rightarrow> None | Some e \<Rightarrow> detail_message e))"

text \<open>\<^verbatim>\<open>if (parsed?.error?.message) return parsed.error.message; return raw;\<close> --
  a test of truthiness, and the value itself is returned.\<close>

definition parseApiError :: "('d, 'n) JSON \<Rightarrow> string \<Rightarrow> 'n json" where
  "parseApiError J raw =
     (case errorMessageOf J raw of
        None \<Rightarrow> JStr raw
      | Some m \<Rightarrow> if ToBoolean (numberFalsy J) m then m else JStr raw)"

subsection \<open>Updating the message list\<close>

definition appendMessage :: "'d UiMessage \<Rightarrow> 'd ui \<Rightarrow> 'd ui" where
  "appendMessage m u = u\<lparr>messages := messages u @ [m]\<rparr>"

text \<open>A \<^verbatim>\<open>Partial<UiMessage>\<close> as the panel builds it: the key \<^verbatim>\<open>text\<close>, and sometimes the
  key \<^verbatim>\<open>data\<close> (whose value may be \<^verbatim>\<open>undefined\<close>).\<close>

record 'd patch =
  new_text :: "string option"
  new_data :: "'d option option"

definition applyPatch :: "'d patch \<Rightarrow> 'd UiMessage \<Rightarrow> 'd UiMessage" where
  "applyPatch p msg =
     msg\<lparr>msg_text := (case new_text p of None \<Rightarrow> msg_text msg | Some t \<Rightarrow> t),
         msg_data := (case new_data p of None \<Rightarrow> msg_data msg | Some d \<Rightarrow> d)\<rparr>"

definition patchMessage :: "string \<Rightarrow> 'd patch \<Rightarrow> 'd ui \<Rightarrow> 'd ui" where
  "patchMessage i p u =
     u\<lparr>messages := map (\<lambda>msg. if msg_id msg = i then applyPatch p msg else msg) (messages u)\<rparr>"

definition appendMessageText :: "string \<Rightarrow> string \<Rightarrow> 'd ui \<Rightarrow> 'd ui" where
  "appendMessageText i textToAppend u =
     u\<lparr>messages :=
         map (\<lambda>msg. if msg_id msg = i then msg\<lparr>msg_text := msg_text msg @ textToAppend\<rparr> else msg)
           (messages u)\<rparr>"

section \<open>Consuming the event stream\<close>

text \<open>The two flags of \<^verbatim>\<open>sendMessageStreaming\<close>.\<close>

record flags =
  hasDelta :: bool
  gotFinal :: bool

text \<open>
  \<^verbatim>\<open>parseJson<StreamDelta>(parsed.data)?.content ?? ""\<close> and
  \<^verbatim>\<open>parseJson<StreamError>(parsed.data)?.message ?? "Error en streaming"\<close>; \<^verbatim>\<open>??\<close> replaces
  \<^verbatim>\<open>undefined\<close> and \<^verbatim>\<open>null\<close> only.
\<close>

definition deltaPiece :: "('d, 'n) JSON \<Rightarrow> string \<Rightarrow> string" where
  "deltaPiece J d =
     (case parseJson (parseDelta J) d of
        None \<Rightarrow> []
      | Some delta \<Rightarrow> (case content delta of None \<Rightarrow> [] | Some c \<Rightarrow> c))"

definition streamErrorMessage :: "('d, 'n) JSON \<Rightarrow> string \<Rightarrow> 'n json" where
  "streamErrorMessage J d =
     (case parseJson (parseError J) d of
        None \<Rightarrow> JStr ''Error en streaming''
      | Some streamError \<Rightarrow>
          (case message streamError of
             None \<Rightarrow> JStr ''Error en streaming''
           | Some JNull \<Rightarrow> JStr ''Error en streaming''
           | Some m \<Rightarrow> m))"

text \<open>
  The body of \<^verbatim>\<open>for (const block of blocks)\<close> after \<^verbatim>\<open>parseSseBlock\<close>: the dispatch on
  \<^verbatim>\<open>parsed.event\<close>. \<open>Inl\<close> is a throw, \<open>Inr\<close> carries on with the next block.
\<close>

definition handleEvent ::
  "('d, 'n) JSON \<Rightarrow> string \<Rightarrow> 'd ui \<times> flags \<Rightarrow> sse \<Rightarrow> exn + 'd ui \<times> flags" where
  "handleEvent J assistantId s parsed =
     (let (u, f) = s in
      if event parsed = ''start'' then
        Inr (patchMessage assistantId \<lparr>new_text = Some ''Procesando...'', new_data = None\<rparr> u, f)
      else if event parsed = ''delta'' then
        (let piece = deltaPiece J (data parsed)
         in if piece = [] then Inr (u, f)
            else if \<not> hasDelta f then
              Inr (appendMessageText assistantId piece
                     (patchMessage assistantId \<lparr>new_text = Some [], new_data = None\<rparr> u),
                   f\<lparr>hasDelta := True\<rparr>)
            else Inr (appendMessageText assistantId piece u, f))
      else if event parsed = ''error'' then
        Inl (newError J (streamErrorMessage J (data parsed)))
      else if event parsed = ''final'' then
        (case parseJson (parseFinal J) (data parsed) of
           None \<Rightarrow> Inl (Error ''No se pudo leer respuesta final del stream'')
         | Some payload \<Rightarrow>
             Inr (patchMessage assistantId
                    \<lparr>new_text = Some (assistant_message payload),
                     new_data = Some (response_data payload)\<rparr>
                    (u\<lparr>conversationId := conversation_id payload\<rparr>),
                  f\<lparr>gotFinal := True\<rparr>))
      else Inr (u, f))"

text \<open>
  The loops, for any dispatch \<open>h\<close> on the parsed events. A throw leaves the loops at once,
  with the state reached so far.
\<close>

fun forEvents :: "('s \<Rightarrow> sse \<Rightarrow> exn + 's) \<Rightarrow> 's \<Rightarrow> sse list \<Rightarrow> exn \<times> 's + 's" where
  "forEvents h s [] = Inr s"
| "forEvents h s (parsed # rest) =
     (case h s parsed of Inl e \<Rightarrow> Inl (e, s) | Inr s' \<Rightarrow> forEvents h s' rest)"

text \<open>\<^verbatim>\<open>for (const block of blocks)\<close>: a block that \<^verbatim>\<open>parseSseBlock\<close> rejects is skipped.\<close>

fun forBlocks :: "('s \<Rightarrow> sse \<Rightarrow> exn + 's) \<Rightarrow> 's \<Rightarrow> string list \<Rightarrow> exn \<times> 's + 's" where
  "forBlocks h s [] = Inr s"
| "forBlocks h s (block # rest) =
     (case parseSseBlock block of
        None \<Rightarrow> forBlocks h s rest
      | Some parsed \<Rightarrow>
          (case h s parsed of Inl e \<Rightarrow> Inl (e, s) | Inr s' \<Rightarrow> forBlocks h s' rest))"

text \<open>
  \<^verbatim>\<open>while (true)\<close>: the reader hands over the chunks one by one and then reports
  \<^verbatim>\<open>done\<close>. A chunk is given as the text the streaming \<^verbatim>\<open>TextDecoder\<close> returns for it.
  \<^verbatim>\<open>blocks.pop() ?? ""\<close> takes the last piece off as the new buffer.
\<close>

fun readLoop ::
  "('s \<Rightarrow> sse \<Rightarrow> exn + 's) \<Rightarrow> string \<Rightarrow> 's \<Rightarrow> string list \<Rightarrow> exn \<times> 's + 's" where
  "readLoop h buffer s [] = Inr s"
| "readLoop h buffer s (chunk # chunks) =
     (let blocks = split (LF @ LF) (buffer @ chunk);
          buffer' = (if blocks = [] then [] else last blocks)
      in case forBlocks h s (butlast blocks) of
           Inl x \<Rightarrow> Inl x
         | Inr s' \<Rightarrow> readLoop h buffer' s' chunks)"

text \<open>The dispatch that only records what was parsed.\<close>

definition collect :: "sse list \<Rightarrow> sse \<Rightarrow> exn + sse list" where
  "collect seen parsed = Inr (seen @ [parsed])"

subsection \<open>The request and the response\<close>

datatype FormValue = Text string | Blob File

type_synonym FormData = "(string \<times> FormValue) list"

text \<open>
  What \<^verbatim>\<open>fetch\<close> resolves to: \<^verbatim>\<open>response.ok\<close>, the text \<^verbatim>\<open>response.text()\<close> gives, the
  chunks the reader of \<^verbatim>\<open>response.body\<close> delivers before \<^verbatim>\<open>done\<close> (\<open>None\<close> for a
  \<^verbatim>\<open>null\<close> body) and the header \<^verbatim>\<open>content-type\<close>.
\<close>

record Response =
  ok :: bool
  body_text :: string
  body :: "string list option"
  content_type :: "string option"

text \<open>
  \<^verbatim>\<open>sendMessageStreaming\<close>. The result is \<open>Inr\<close> with the state of the panel when the
  promise resolves, and \<open>Inl\<close> with the error and the state reached when it throws.
\<close>

definition sendMessageStreaming ::
  "('d, 'n) JSON \<Rightarrow> (FormData \<Rightarrow> Response) \<Rightarrow> FormData \<Rightarrow> string \<Rightarrow> 'd ui \<Rightarrow>
     exn \<times> 'd ui + 'd ui" where
  "sendMessageStreaming J fetch formData assistantId u =
     (let response = fetch formData in
      if \<not> ok response then
        (let detail = body_text response; m = parseApiError J detail
         in Inl (newError J (if ToBoolean (numberFalsy J) m then m
                             else JStr ''Error enviando mensaje''), u))
      else
        (case body response of
           None \<Rightarrow> Inl (Error ''El servidor no devolvio stream'', u)
         | Some chunks \<Rightarrow>
             (let contentType = (case content_type response of None \<Rightarrow> [] | Some c \<Rightarrow> c) in
              if \<not> sublist ''text/event-stream'' contentType then
                Inl (Error ''Respuesta inesperada del servidor (sin SSE)'', u)
              else
                (case readLoop (handleEvent J assistantId) []
                        (u, \<lparr>hasDelta = False, gotFinal = False\<rparr>) chunks of
                   Inl (e, (u', f)) \<Rightarrow> Inl (e, u')
                 | Inr (u', f) \<Rightarrow>
                     if \<not> gotFinal f then Inl (Error ''El stream finalizo sin evento final'', u')
                     else Inr u'))))"

text \<open>
  The form data of a turn:
  \<^verbatim>\<open>if (conversationId) formData.append("conversation_id", conversationId);\<close>
  \<^verbatim>\<open>if (text) formData.append("message", text);\<close>
  \<^verbatim>\<open>if (file) formData.append("file", file);\<close>
\<close>

definition buildFormData :: "string \<Rightarrow> string \<Rightarrow> File option \<Rightarrow> FormData" where
  "buildFormData conversationId' txt fl =
     (if conversationId' \<noteq> [] then [(''conversation_id'', Text conversationId')] else [])
     @ (if txt \<noteq> [] then [(''message'', Text txt)] else [])
     @ (case fl of Some f \<Rightarrow> [(''file'', Blob f)] | None \<Rightarrow> [])"

text \<open>
  \<^verbatim>\<open>sendMessage\<close>, the submit handler. \<open>uuid1\<close> and \<open>uuid2\<close> are what the two calls of
  \<^verbatim>\<open>crypto.randomUUID()\<close> return. Beside the new state the model returns the requests that
  were sent: \<^verbatim>\<open>sendMessageStreaming\<close> calls \<^verbatim>\<open>fetch\<close> once, as its first statement.
\<close>

definition sendMessage ::
  "('d, 'n) JSON \<Rightarrow> (FormData \<Rightarrow> Response) \<Rightarrow> string \<Rightarrow> string \<Rightarrow> 'd ui \<Rightarrow>
     'd ui \<times> FormData list" where
  "sendMessage J fetch uuid1 uuid2 u =
     (if loading u then (u, [])
      else
        (let txt = trim (input u) in
         if txt = [] \<and> file' u = None then (u, [])
         else
           (let u1 = appendMessage
                  \<lparr>msg_id = uuid1, msg_role = user,
                   msg_text = (case file' u of
                                 Some fl \<Rightarrow> (if txt \<noteq> [] then txt else ''Archivo enviado'')
                                             @ '' ('' @ name fl @ '')''
                               | None \<Rightarrow> txt),
                   msg_data = None\<rparr> u;
                assistantId = uuid2;
                u2 = appendMessage
                  \<lparr>msg_id = assistantId, msg_role = assistant, msg_text = ''Procesando...'',
                   msg_data = None\<rparr> u1;
                formData = buildFormData (conversationId u) txt (file' u);
                u3 = u2\<lparr>input := [], file' := None, loading := True\<rparr>;
                u4 = (case sendMessageStreaming J fetch formData assistantId u3 of
                        Inl (Error m, u') \<Rightarrow>
                          patchMessage assistantId
                            \<lparr>new_text = Some (''Error: '' @ m), new_data = Some None\<rparr> u'
                      | Inr u' \<Rightarrow> u')
            in (u4\<lparr>loading := False\<rparr>, [formData]))))"

section \<open>Saving a manual correction\<close>

text \<open>The values put into the \<^verbatim>\<open>payload\<close> object; \<open>'n\<close> is the type of numbers.\<close>

datatype 'n jsvalue = Null | Str string | Num 'n

text \<open>\<^verbatim>\<open>field || null\<close>.\<close>

definition orNull :: "string \<Rightarrow> 'n jsvalue" where
  "orNull s = (if s \<noteq> [] then Str s else Null)"

text \<open>
  \<^verbatim>\<open>saveManualCorrection\<close> up to its \<^verbatim>\<open>fetch\<close>: the state of the editor, and the id in the
  address and the \<^verbatim>\<open>payload\<close> object of the PATCH request, if one is sent. \<open>Number\<close> is the
  platform's conversion of a string to a number.
\<close>

definition saveManualCorrection ::
  "(string \<Rightarrow> 'n) \<Rightarrow> editor \<Rightarrow> editor \<times> (string \<times> (string \<rightharpoonup> 'n jsvalue)) option" where
  "saveManualCorrection Number ed =
     (case editableReceipt ed of
        None \<Rightarrow> (ed\<lparr>editorMessage := ''No hay comprobante cargado para editar.''\<rparr>, None)
      | Some r \<Rightarrow>
          (let ed1 = ed\<lparr>editorLoading := True, editorMessage := ''Guardando cambios...''\<rparr>;
               payload = [''vendor_name'' \<mapsto> orNull (vendor_name r),
                          ''receipt_number'' \<mapsto> orNull (receipt_number r),
                          ''payment_method'' \<mapsto> orNull (payment_method r),
                          ''status'' \<mapsto> orNull (status r),
                          ''currency'' \<mapsto> orNull (currency r),
                          ''issue_date'' \<mapsto> orNull (issue_date r)];
               payload1 = (if subtotal r \<noteq> [] then payload(''subtotal'' \<mapsto> Num (Number (subtotal r)))
                           else payload);
               payload2 = (if tax r \<noteq> [] then payload1(''tax'' \<mapsto> Num (Number (tax r)))
                           else payload1);
               payload3 = (if total r \<noteq> [] then payload2(''total'' \<mapsto> Num (Number (total r)))
                           else payload2)
           in (ed1, Some (rcpt_id r, payload3))))"

section \<open>The block parser as the specification words it\<close>

text \<open>
  The specification describes the result of \<^verbatim>\<open>parseSseBlock\<close> line by line: the data of
  a line is what follows \<^verbatim>\<open>data:\<close>, without its leading white space. This is that
  description, to be compared with \<^const>\<open>parseSseBlock\<close>.
\<close>

definition parseSseBlock_spec :: "string \<Rightarrow> sse option" where
  "parseSseBlock_spec block =
     (let lines = split LF block;
          dataLines = filter (prefix ''data:'') lines;
          eventLines = filter (prefix ''event:'') lines
      in if dataLines = [] then None
         else Some \<lparr>event = (if eventLines = [] then ''message''
                             else trim (drop 6 (last eventLines))),
                    data = join LF (map (\<lambda>l. trimStart (drop 5 l)) dataLines)\<rparr>)"

section \<open>What the stream cannot change\<close>

text \<open>The message list of \<open>u'\<close> has the identifiers and the roles of that of \<open>u\<close>, in the
  same order: messages were patched, none was added, dropped or moved.\<close>

definition sameMessages :: "'d ui \<Rightarrow> 'd ui \<Rightarrow> bool" where
  "sameMessages u u' \<longleftrightarrow>
     map msg_id (messages u') = map msg_id (messages u) \<and>
     map msg_role (messages u') = map msg_role (messages u)"

section \<open>A concrete platform and panel for the examples\<close>

text \<open>
  The state of a freshly mounted panel (the initial values of its \<^verbatim>\<open>useState\<close> cells), and
  the state in which \<^verbatim>\<open>sendMessageStreaming\<close> starts after the user has sent \<^verbatim>\<open>hola\<close> from
  it, the two identifiers drawn being \<^verbatim>\<open>u1\<close> and \<^verbatim>\<open>a1\<close>.
\<close>

definition initialUi :: "string ui" where
  "initialUi = \<lparr>conversationId = [], input = [], file' = None, messages = [], loading = False\<rparr>"

definition waitingUi :: "string ui" where
  "waitingUi =
     \<lparr>conversationId = [], input = [], file' = None,
      messages = [\<lparr>msg_id = ''u1'', msg_role = user, msg_text = ''hola'', msg_data = None\<rparr>,
                  \<lparr>msg_id = ''a1'', msg_role = assistant, msg_text = ''Procesando...'',
                   msg_data = None\<rparr>],
      loading = True\<rparr>"

text \<open>How the platform writes the number \<^verbatim>\<open>123\<close> of the examples, and which number is
  falsy.\<close>

definition exampleNumberToString :: "int \<Rightarrow> string" where
  "exampleNumberToString n = (if n = 123 then ''123'' else ''0'')"

definition exampleNumberFalsy :: "int \<Rightarrow> bool" where
  "exampleNumberFalsy n \<longleftrightarrow> n = 0"

text \<open>
  A parser that knows the payloads of the examples, with the values \<^verbatim>\<open>JSON.parse\<close> gives
  for these texts, and rejects every other text.
\<close>

definition exampleJSON :: "(string, int) JSON" where
  \<open>exampleJSON =
     \<lparr>parseDelta = map_of
        [(''{"content":"Ho"}'', \<lparr>content = Some ''Ho''\<rparr>),
         (''{"content":"la"}'', \<lparr>content = Some ''la''\<rparr>),
         (''{"content":""}'', \<lparr>content = Some []\<rparr>),
         (''{}'', \<lparr>content = None\<rparr>)],
      parseError = map_of
        [(''{"message":"fallo"}'', \<lparr>message = Some (JStr ''fallo'')\<rparr>),
         (''{"message":123}'', \<lparr>message = Some (JNum 123)\<rparr>),
         (''{}'', \<lparr>message = None\<rparr>)],
      parseFinal = map_of
        [(''{"conversation_id":"c1","assistant_message":"Hola"}'',
          \<lparr>conversation_id = ''c1'', assistant_message = ''Hola'', receipt_id = None,
           response_data = None\<rparr>)],
      parseErrorBody = map_of
        [(''{"error":{"message":"Archivo no soportado"}}'',
          \<lparr>error = Some \<lparr>detail_message = Some (JStr ''Archivo no soportado'')\<rparr>\<rparr>),
         (''{"error":{"message":""}}'', \<lparr>error = Some \<lparr>detail_message = Some (JStr [])\<rparr>\<rparr>),
         (''{"error":{"message":123}}'', \<lparr>error = Some \<lparr>detail_message = Some (JNum 123)\<rparr>\<rparr>),
         (''{"error":{"message":[]}}'', \<lparr>error = Some \<lparr>detail_message = Some (JArr [])\<rparr>\<rparr>)],
      numberToString = exampleNumberToString,
      numberFalsy = exampleNumberFalsy,
      typeErrorMessage = ''Cannot convert object to primitive value''\<rparr>\<close>

text \<open>A server that answers every request with the same response, and the response that
  streams the given chunks as server-sent events.\<close>

definition answer :: "Response \<Rightarrow> FormData \<Rightarrow> Response" where
  "answer r formData = r"

definition sseResponse :: "string list \<Rightarrow> Response" where
  "sseResponse chunks =
     \<lparr>ok = True, body_text = concat chunks, body = Some chunks,
      content_type = Some ''text/event-stream; charset=utf-8''\<rparr>"

text \<open>The conversion \<^verbatim>\<open>Number\<close> on the two amounts of the example receipt.\<close>

definition exampleNumber :: "string \<Rightarrow> int" where
  "exampleNumber s = (if s = ''100'' then 100 else if s = ''118'' then 118 else 0)"

section \<open>Properties of the string functions\<close>

lemma trimEnd_append:
  "trimEnd (a @ b) = (if \<forall>c\<in>set b. isWhiteSpace c then trimEnd a else a @ trimEnd b)"
  by (simp add: trimEnd_def dropWhile_append)

lemma trimEnd_all_ws: "\<forall>c\<in>set w. isWhiteSpace c \<Longrightarrow> trimEnd w = []"
  by (simp add: trimEnd_def)

lemma trimEnd_snoc_keep: "\<not> isWhiteSpace c \<Longrightarrow> trimEnd (p @ [c]) = p @ [c]"
  by (simp add: trimEnd_def)

lemma trimEnd_idem: "trimEnd (trimEnd s) = trimEnd s"
proof (induction s rule: rev_induct)
  case Nil
  show ?case by (simp add: trimEnd_def)
next
  case (snoc c s)
  show ?case
  proof (cases "isWhiteSpace c")
    case True
    then have "trimEnd (s @ [c]) = trimEnd s" by (simp add: trimEnd_append)
    with snoc show ?thesis by simp
  next
    case False
    then show ?thesis by (simp add: trimEnd_snoc_keep)
  qed
qed

text \<open>A prefix that ends in a visible character survives \<^const>\<open>trimEnd\<close>, and only such
  a prefix of the line can be one of the trimmed line.\<close>

lemma prefix_trimEnd:
  assumes "\<not> isWhiteSpace c"
  shows "prefix (p @ [c]) (trimEnd l) \<longleftrightarrow> prefix (p @ [c]) l"
proof
  assume "prefix (p @ [c]) l"
  then obtain z where l: "l = (p @ [c]) @ z" by (auto simp: prefix_def)
  have "trimEnd l = (if \<forall>x\<in>set z. isWhiteSpace x then p @ [c] else (p @ [c]) @ trimEnd z)"
    unfolding l by (subst trimEnd_append) (simp only: trimEnd_snoc_keep [OF assms])
  then show "prefix (p @ [c]) (trimEnd l)"
    by (simp add: prefix_def)
next
  assume a: "prefix (p @ [c]) (trimEnd l)"
  have "rev (takeWhile isWhiteSpace (rev l) @ dropWhile isWhiteSpace (rev l)) = l"
    by simp
  then have "trimEnd l @ rev (takeWhile isWhiteSpace (rev l)) = l"
    unfolding rev_append trimEnd_def .
  then have "prefix (trimEnd l) l"
    by (metis prefixI)
  with a show "prefix (p @ [c]) l" by (rule prefix_order.trans)
qed

lemma prefix_event_trimEnd: "prefix ''event:'' (trimEnd l) \<longleftrightarrow> prefix ''event:'' l"
  using prefix_trimEnd [of "CHR '':''" "''event''" l] by (simp add: isWhiteSpace_def)

lemma prefix_data_trimEnd: "prefix ''data:'' (trimEnd l) \<longleftrightarrow> prefix ''data:'' l"
  using prefix_trimEnd [of "CHR '':''" "''data''" l] by (simp add: isWhiteSpace_def)

lemma trim_event_name:
  assumes "prefix ''event:'' l"
  shows "trim (drop 6 (trimEnd l)) = trim (drop 6 l)"
proof -
  from assms obtain z where l: "l = ''event:'' @ z" by (auto simp: prefix_def)
  have k: "trimEnd ''event:'' = ''event:''"
    using trimEnd_snoc_keep [of "CHR '':''" "''event''"] by (simp add: isWhiteSpace_def)
  show ?thesis
  proof (cases "\<forall>c\<in>set z. isWhiteSpace c")
    case True
    then have "trimEnd l = ''event:''"
      unfolding l using k trimEnd_append [of "''event:''" z] by simp
    then have "trim (drop 6 (trimEnd l)) = []"
      by (simp add: trim_def trimEnd_def trimStart_def)
    moreover have "trim z = []"
      using True by (simp add: trim_def trimEnd_all_ws trimStart_def)
    moreover have "drop 6 l = z" by (simp add: l)
    ultimately show ?thesis by simp
  next
    case False
    then have "trimEnd l = ''event:'' @ trimEnd z"
      unfolding l using trimEnd_append [of "''event:''" z] by auto
    then show ?thesis by (simp add: l trim_def trimEnd_idem)
  qed
qed

subsection \<open>Splitting a text that arrives in two parts\<close>

lemma split_not_Nil: "sep \<noteq> [] \<Longrightarrow> split sep s \<noteq> []"
  by (cases s) (auto simp: Let_def)

lemma split_short: "length s < length sep \<Longrightarrow> split sep s = [s]"
proof (induction s)
  case Nil
  then show ?case by auto
next
  case (Cons c cs)
  then have "sep \<noteq> []" "\<not> prefix sep (c # cs)" "split sep cs = [cs]"
    by (auto dest: prefix_length_le)
  then show ?case by simp
qed

lemma split_singleton: "sep \<noteq> [] \<Longrightarrow> split sep s = [p] \<Longrightarrow> p = s"
proof (induction s arbitrary: p)
  case Nil
  then show ?case by simp
next
  case (Cons c cs)
  from Cons.prems have np: "\<not> prefix sep (c # cs)"
    using split_not_Nil [of sep "drop (length sep) (c # cs)"] by auto
  with Cons.prems have e: "(c # hd (split sep cs)) # tl (split sep cs) = [p]"
    by (simp add: Let_def)
  then have "split sep cs = [hd (split sep cs)]"
    using split_not_Nil [OF Cons.prems(1), of cs] by (cases "split sep cs") auto
  then have "hd (split sep cs) = cs" using Cons.IH [OF Cons.prems(1)] by simp
  with e show ?case by simp
qed

text \<open>
  The pieces of \<open>s @ t\<close> are the complete pieces of \<open>s\<close>, followed by the pieces of the
  unfinished last piece of \<open>s\<close> continued by \<open>t\<close>.
\<close>

lemma split_append:
  assumes "sep \<noteq> []"
  shows "split sep (s @ t) = butlast (split sep s) @ split sep (last (split sep s) @ t)"
  using assms
proof (induction sep s rule: split.induct)
  case (1 sep)
  then show ?case by simp
next
  case (2 sep c cs)
  note ne = \<open>sep \<noteq> []\<close>
  show ?case
  proof (cases "prefix sep (c # cs)")
    case True
    then obtain s' where s': "c # cs = sep @ s'" by (auto simp: prefix_def)
    have d: "drop (length sep) (c # cs) = s'"
      using s' by (metis append_eq_conv_conj)
    have d2: "drop (length sep) ((c # cs) @ t) = s' @ t"
      using s' by (metis append.assoc append_eq_conv_conj)
    have p2: "prefix sep ((c # cs) @ t)" using True by (metis prefix_prefix)
    have ih: "split sep (s' @ t) = butlast (split sep s') @ split sep (last (split sep s') @ t)"
      using "2.IH"(1) [OF ne True ne] d by simp
    have l: "split sep ((c # cs) @ t) = [] # split sep (s' @ t)"
      using ne p2 d2 by (metis append_Cons split.simps(2))
    have r: "split sep (c # cs) = [] # split sep s'"
      using ne True d by simp
    show ?thesis
      unfolding l r ih using split_not_Nil [OF ne, of s'] by simp
  next
    case False
    let ?r = "split sep cs"
    have r: "split sep (c # cs) = (c # hd ?r) # tl ?r" using ne False by (simp add: Let_def)
    have rne: "?r \<noteq> []" by (rule split_not_Nil [OF ne])
    show ?thesis
    proof (cases "tl ?r = []")
      case True
      then have "?r = [hd ?r]" using rne by (cases ?r) auto
      then have "hd ?r = cs" using split_singleton [OF ne] by metis
      then show ?thesis unfolding r using True by simp
    next
      case nt: False
      have np: "\<not> prefix sep ((c # cs) @ t)"
      proof
        assume a: "prefix sep ((c # cs) @ t)"
        have "length (c # cs) < length sep"
        proof (rule ccontr)
          assume "\<not> length (c # cs) < length sep"
          then have "length sep \<le> length (c # cs)" by simp
          with a have "prefix sep (c # cs)"
            by (metis prefix_length_prefix prefixI)
          with False show False by simp
        qed
        then have "length cs < length sep" by simp
        then have "?r = [cs]" by (rule split_short)
        with nt show False by simp
      qed
      have ih: "split sep (cs @ t) = butlast ?r @ split sep (last ?r @ t)"
        using "2.IH"(2) [OF ne False ne] by simp
      have bl: "butlast ?r \<noteq> []" using nt rne by (cases ?r) auto
      have l: "split sep ((c # cs) @ t) = (c # hd (split sep (cs @ t))) # tl (split sep (cs @ t))"
        using ne np by (simp add: Let_def)
      have h1: "hd (split sep (cs @ t)) = hd ?r"
        unfolding ih using bl rne by (cases ?r) auto
      have h2: "tl (split sep (cs @ t)) = butlast (tl ?r) @ split sep (last ?r @ t)"
        unfolding ih using bl rne by (cases ?r) auto
      show ?thesis unfolding l h1 h2 r using nt rne by (cases ?r) auto
    qed
  qed
qed

lemma split_last_fixed:
  assumes "sep \<noteq> []"
  shows "split sep (last (split sep s)) = [last (split sep s)]"
proof -
  have "butlast (split sep s) @ [last (split sep s)]
          = butlast (split sep s) @ split sep (last (split sep s))"
    using split_append [OF assms, of s "[]"] split_not_Nil [OF assms, of s] by simp
  then show ?thesis by simp
qed

section \<open>What \<^verbatim>\<open>parseSseBlock\<close> returns\<close>

lemma scanLines_filter:
  "scanLines ev dl ls =
     (let es = filter (prefix ''event:'') ls; ds = filter (prefix ''data:'') ls
      in (if es = [] then ev else trim (drop 6 (last es)),
          dl @ map (\<lambda>l. trimStart (drop 5 (trimEnd l))) ds))"
proof (induction ls arbitrary: ev dl)
  case Nil
  show ?case by simp
next
  case (Cons l ls)
  have ne: "trimEnd l = [] \<Longrightarrow> \<not> prefix ''event:'' l \<and> \<not> prefix ''data:'' l"
    using prefix_event_trimEnd [of l] prefix_data_trimEnd [of l] by auto
  have excl: "prefix ''event:'' l \<Longrightarrow> \<not> prefix ''data:'' l"
    by (auto simp: prefix_def)
  show ?case
    using ne excl
    by (auto simp: Cons.IH Let_def prefix_event_trimEnd prefix_data_trimEnd trim_event_name)
qed

text \<open>
  Claim C10, as amended. \<^verbatim>\<open>parseSseBlock\<close> returns \<^verbatim>\<open>null\<close> exactly when no line of the
  block starts with \<^verbatim>\<open>data:\<close>. Otherwise the event name is the trimmed rest of the last line
  that starts with \<^verbatim>\<open>event:\<close> (\<^verbatim>\<open>message\<close> when there is none), and the data is the join by
  line feeds, in order, of the data lines, each first freed of its trailing white space,
  then of \<^verbatim>\<open>data:\<close> and then of its leading white space.
\<close>

theorem parseSseBlock_lines:
  "parseSseBlock block =
     (let lines = split LF block;
          dataLines = filter (prefix ''data:'') lines;
          eventLines = filter (prefix ''event:'') lines
      in if dataLines = [] then None
         else Some \<lparr>event = (if eventLines = [] then ''message''
                             else trim (drop 6 (last eventLines))),
                    data = join LF (map (\<lambda>l. trimStart (drop 5 (trimEnd l))) dataLines)\<rparr>)"
  by (simp add: parseSseBlock_def scanLines_filter Let_def)

text \<open>
  Claim C10, an instance of the amended statement: a block with two event lines, a comment
  and two data lines.
\<close>

theorem parseSseBlock_lines_witness:
  "parseSseBlock ''event: a\<newline>: ping\<newline>data: {\<newline>event: delta \<newline>data:  }  ''
     = Some \<lparr>event = ''delta'', data = ''{\<newline>}''\<rparr>"
  using parseSseBlock_lines [of "''event: a\<newline>: ping\<newline>data: {\<newline>event: delta \<newline>data:  }  ''"]
  by (simp add: LF_def trim_def trimStart_def trimEnd_def isWhiteSpace_def)

text \<open>
  Claim C10 as it is worded fails on a data line that ends in white space: the code drops
  the trailing space, the worded description keeps it.
\<close>

theorem parseSseBlock_trailing_space_counterexample:
  "parseSseBlock ''data: x '' = Some \<lparr>event = ''message'', data = ''x''\<rparr> \<and>
   parseSseBlock_spec ''data: x '' = Some \<lparr>event = ''message'', data = ''x ''\<rparr>"
  by (simp add: parseSseBlock_def parseSseBlock_spec_def LF_def trimStart_def trimEnd_def
      isWhiteSpace_def)

section \<open>The read loop sees the stream, not its chunks\<close>

lemma map_filter_append:
  "List.map_filter g (xs @ ys) = List.map_filter g xs @ List.map_filter g ys"
  by (simp add: List.map_filter_def)

lemma forBlocks_forEvents: "forBlocks h s bs = forEvents h s (List.map_filter parseSseBlock bs)"
  by (induction bs arbitrary: s) (auto split: option.splits sum.splits)

lemma forEvents_append:
  "forEvents h s (xs @ ys) =
     (case forEvents h s xs of Inl x \<Rightarrow> Inl x | Inr s' \<Rightarrow> forEvents h s' ys)"
  by (induction xs arbitrary: s) (auto split: sum.splits)

lemma LFLF_not_Nil: "LF @ LF \<noteq> []"
  by (simp add: LF_def)

lemma split_Nil_buffer: "split (LF @ LF) [] = [[]]"
  by (simp add: LF_def)

text \<open>
  The buffer never holds a complete block. From such a buffer the loop dispatches exactly
  the events of the buffer continued by all the chunks.
\<close>

lemma readLoop_events:
  "split (LF @ LF) buffer = [buffer] \<Longrightarrow>
   readLoop h buffer s chunks = forEvents h s (sseEvents (buffer @ concat chunks))"
proof (induction chunks arbitrary: buffer s)
  case Nil
  then show ?case by (simp add: sseEvents_def)
next
  case (Cons chunk chunks)
  let ?blocks = "split (LF @ LF) (buffer @ chunk)"
  let ?b = "last ?blocks"
  have ne: "?blocks \<noteq> []" by (rule split_not_Nil [OF LFLF_not_Nil])
  have inv: "split (LF @ LF) ?b = [?b]" by (rule split_last_fixed [OF LFLF_not_Nil])
  have "split (LF @ LF) ((buffer @ chunk) @ concat chunks)
          = butlast ?blocks @ split (LF @ LF) (?b @ concat chunks)"
    by (rule split_append [OF LFLF_not_Nil])
  then have "butlast (split (LF @ LF) (buffer @ concat (chunk # chunks)))
          = butlast ?blocks @ butlast (split (LF @ LF) (?b @ concat chunks))"
    using split_not_Nil [OF LFLF_not_Nil, of "?b @ concat chunks"] by (simp add: butlast_append)
  then have ev: "sseEvents (buffer @ concat (chunk # chunks))
          = List.map_filter parseSseBlock (butlast ?blocks) @ sseEvents (?b @ concat chunks)"
    by (simp add: sseEvents_def map_filter_append)
  show ?case
    unfolding ev forEvents_append
    using ne Cons.IH [OF inv] by (simp add: Let_def forBlocks_forEvents split: sum.splits)
qed

lemmas readLoop_start = readLoop_events [OF split_Nil_buffer, simplified]

lemma forEvents_collect: "forEvents collect seen evs = Inr (seen @ evs)"
  by (induction evs arbitrary: seen) (auto simp: collect_def)

text \<open>
  Claim C9. However the stream is cut into chunks, the read loop ends as it does when the
  whole stream arrives as one chunk, whatever the dispatch on the parsed events does; and
  the (event, data) pairs it parses, in order, are those of the complete blocks of the
  whole stream.
\<close>

theorem readLoop_chunking:
  "readLoop h [] s chunks = readLoop h [] s [concat chunks] \<and>
   readLoop collect [] [] chunks = readLoop collect [] [] [concat chunks] \<and>
   readLoop collect [] [] chunks = Inr (sseEvents (concat chunks))"
  using readLoop_start [of h s chunks] readLoop_start [of h s "[concat chunks]"]
    readLoop_start [of collect "[]" chunks] readLoop_start [of collect "[]" "[concat chunks]"]
  by (simp add: forEvents_collect)

text \<open>
  Claim C9, an instance: a stream of two events cut inside the blank line and inside a
  field name.
\<close>

theorem readLoop_chunking_witness:
  "readLoop collect [] []
     [''event: delta\<newline>data: a\<newline>'', ''\<newline>event: final\<newline>da'', ''ta: b\<newline>\<newline>'']
   = Inr [\<lparr>event = ''delta'', data = ''a''\<rparr>, \<lparr>event = ''final'', data = ''b''\<rparr>]"
proof -
  let ?chunks = "[''event: delta\<newline>data: a\<newline>'', ''\<newline>event: final\<newline>da'', ''ta: b\<newline>\<newline>'']"
  have "readLoop collect [] [] ?chunks = Inr (sseEvents (concat ?chunks))"
    using readLoop_chunking [of collect "[]" ?chunks] by blast
  also have "sseEvents (concat ?chunks)
      = [\<lparr>event = ''delta'', data = ''a''\<rparr>, \<lparr>event = ''final'', data = ''b''\<rparr>]"
    by code_simp
  finally show ?thesis .
qed

section \<open>The dispatch on the parsed events\<close>

lemma handleEvent_start:
  "event e = ''start'' \<Longrightarrow>
   handleEvent J a (u, f) e =
     Inr (patchMessage a \<lparr>new_text = Some ''Procesando...'', new_data = None\<rparr> u, f)"
  by (simp add: handleEvent_def)

lemma handleEvent_delta:
  "event e = ''delta'' \<Longrightarrow>
   handleEvent J a (u, f) e =
     (if deltaPiece J (data e) = [] then Inr (u, f)
      else if \<not> hasDelta f then
        Inr (appendMessageText a (deltaPiece J (data e))
               (patchMessage a \<lparr>new_text = Some [], new_data = None\<rparr> u),
             f\<lparr>hasDelta := True\<rparr>)
      else Inr (appendMessageText a (deltaPiece J (data e)) u, f))"
  by (simp add: handleEvent_def Let_def)

lemma handleEvent_error:
  "event e = ''error'' \<Longrightarrow>
   handleEvent J a s e = Inl (newError J (streamErrorMessage J (data e)))"
  by (cases s) (simp add: handleEvent_def)

lemma handleEvent_final:
  "event e = ''final'' \<Longrightarrow>
   handleEvent J a (u, f) e =
     (case parseFinal J (data e) of
        None \<Rightarrow> Inl (Error ''No se pudo leer respuesta final del stream'')
      | Some payload \<Rightarrow>
          Inr (patchMessage a
                 \<lparr>new_text = Some (assistant_message payload),
                  new_data = Some (response_data payload)\<rparr>
                 (u\<lparr>conversationId := conversation_id payload\<rparr>),
               f\<lparr>gotFinal := True\<rparr>))"
  by (simp add: handleEvent_def parseJson_def)

lemma handleEvent_other:
  "event e \<noteq> ''start'' \<Longrightarrow> event e \<noteq> ''delta'' \<Longrightarrow> event e \<noteq> ''error'' \<Longrightarrow>
   event e \<noteq> ''final'' \<Longrightarrow> handleEvent J a s e = Inr s"
  by (cases s) (simp add: handleEvent_def)

lemma handleEvent_cases:
  obtains "event e = ''start''" | "event e = ''delta''" | "event e = ''error''"
  | "event e = ''final''"
  | "event e \<noteq> ''start''" "event e \<noteq> ''delta''" "event e \<noteq> ''error''" "event e \<noteq> ''final''"
  by blast

lemma handleEvent_throws_iff:
  "(\<exists>x. handleEvent J a s e = Inl x) \<longleftrightarrow>
   event e = ''error'' \<or> (event e = ''final'' \<and> parseFinal J (data e) = None)"
proof (cases s)
  case (Pair u f)
  show ?thesis
    unfolding Pair
    by (rule handleEvent_cases [of e])
      (auto simp: handleEvent_start handleEvent_delta handleEvent_error handleEvent_final
        handleEvent_other split: option.splits)
qed

lemma handleEvent_gotFinal:
  "handleEvent J a (u, f) e = Inr (u', f') \<Longrightarrow> gotFinal f' = (gotFinal f \<or> event e = ''final'')"
  by (rule handleEvent_cases [of e])
    (auto simp: handleEvent_start handleEvent_delta handleEvent_error handleEvent_final
      handleEvent_other split: option.splits if_splits)

section \<open>When a turn completes\<close>

lemma forEvents_completes_iff:
  "(\<exists>s'. forEvents (handleEvent J a) s evs = Inr s') \<longleftrightarrow>
   (\<forall>e\<in>set evs. event e \<noteq> ''error'' \<and> (event e = ''final'' \<longrightarrow> parseFinal J (data e) \<noteq> None))"
proof (induction evs arbitrary: s)
  case Nil
  show ?case by simp
next
  case (Cons e evs)
  show ?case
  proof (cases "handleEvent J a s e")
    case (Inl x)
    then show ?thesis using handleEvent_throws_iff [of J a s e] by auto
  next
    case (Inr s')
    then show ?thesis using handleEvent_throws_iff [of J a s e] Cons.IH [of s'] by auto
  qed
qed

lemma forEvents_gotFinal:
  "forEvents (handleEvent J a) (u, f) evs = Inr (u', f') \<Longrightarrow>
   gotFinal f' = (gotFinal f \<or> (\<exists>e\<in>set evs. event e = ''final''))"
proof (induction evs arbitrary: u f)
  case Nil
  then show ?case by simp
next
  case (Cons e evs)
  then obtain u1 f1 where h: "handleEvent J a (u, f) e = Inr (u1, f1)"
    and r: "forEvents (handleEvent J a) (u1, f1) evs = Inr (u', f')"
    by (auto split: sum.splits)
  show ?case using Cons.IH [OF r] handleEvent_gotFinal [OF h] by auto
qed

lemma sendMessageStreaming_stream:
  assumes "fetch formData = r" "ok r" "body r = Some chunks"
    "content_type r = Some ct" "sublist ''text/event-stream'' ct"
  shows "sendMessageStreaming J fetch formData a u =
     (case forEvents (handleEvent J a) (u, \<lparr>hasDelta = False, gotFinal = False\<rparr>)
             (sseEvents (concat chunks)) of
        Inl (e, (u', f)) \<Rightarrow> Inl (e, u')
      | Inr (u', f) \<Rightarrow>
          if \<not> gotFinal f then Inl (Error ''El stream finalizo sin evento final'', u')
          else Inr u')"
  using assms by (simp add: sendMessageStreaming_def Let_def readLoop_start)

text \<open>
  Claim C1, as amended. For a response that is streamed (status ok, a body, the content type
  of server-sent events), \<^verbatim>\<open>sendMessageStreaming\<close> completes normally if and only if the
  stream holds at least one \<^verbatim>\<open>final\<close> event, every \<^verbatim>\<open>final\<close> event of the stream has a
  payload that \<^verbatim>\<open>parseJson\<close> reads, and no \<^verbatim>\<open>error\<close> event occurs anywhere in the stream,
  before or after a \<^verbatim>\<open>final\<close>. In particular it throws for every stream that ends without a
  \<^verbatim>\<open>final\<close> event.
\<close>

theorem sendMessageStreaming_completes_iff:
  assumes "fetch formData = r" "ok r" "body r = Some chunks"
    "content_type r = Some ct" "sublist ''text/event-stream'' ct"
  shows "((\<exists>u'. sendMessageStreaming J fetch formData a u = Inr u') \<longleftrightarrow>
            (\<exists>e\<in>set (sseEvents (concat chunks)). event e = ''final'') \<and>
            (\<forall>e\<in>set (sseEvents (concat chunks)).
               event e \<noteq> ''error'' \<and> (event e = ''final'' \<longrightarrow> parseFinal J (data e) \<noteq> None))) \<and>
         ((\<forall>e\<in>set (sseEvents (concat chunks)). event e \<noteq> ''final'') \<longrightarrow>
            (\<exists>m u'. sendMessageStreaming J fetch formData a u = Inl (Error m, u')))"
proof -
  let ?evs = "sseEvents (concat chunks)"
  let ?s = "(u, \<lparr>hasDelta = False, gotFinal = False\<rparr>)"
  note sms = sendMessageStreaming_stream [where fetch = fetch and formData = formData, OF assms, of J a u]
  show ?thesis
  proof (cases "forEvents (handleEvent J a) ?s ?evs")
    case (Inl x)
    obtain e u' f where x: "x = (e, (u', f))" by (metis prod.exhaust)
    obtain m where e: "e = Error m" by (cases e)
    have "\<not> (\<exists>s'. forEvents (handleEvent J a) ?s ?evs = Inr s')" using Inl by simp
    then have "\<not> (\<forall>e\<in>set ?evs. event e \<noteq> ''error'' \<and>
                 (event e = ''final'' \<longrightarrow> parseFinal J (data e) \<noteq> None))"
      unfolding forEvents_completes_iff .
    moreover have "sendMessageStreaming J fetch formData a u = Inl (Error m, u')"
      using Inl x e sms by simp
    ultimately show ?thesis by auto
  next
    case (Inr s')
    obtain u' f where s': "s' = (u', f)" by (cases s')
    have "\<exists>s'. forEvents (handleEvent J a) ?s ?evs = Inr s'" using Inr by simp
    then have ok: "\<forall>e\<in>set ?evs. event e \<noteq> ''error'' \<and>
                 (event e = ''final'' \<longrightarrow> parseFinal J (data e) \<noteq> None)"
      unfolding forEvents_completes_iff .
    have g: "gotFinal f = (\<exists>e\<in>set ?evs. event e = ''final'')"
      using forEvents_gotFinal [of J a u _ ?evs u' f] Inr s' by simp
    have r: "sendMessageStreaming J fetch formData a u =
        (if \<not> gotFinal f then Inl (Error ''El stream finalizo sin evento final'', u') else Inr u')"
      using Inr s' sms by simp
    show ?thesis using ok g r by auto
  qed
qed

lemma sseResponse_streams:
  "answer (sseResponse chunks) formData = sseResponse chunks"
  "ok (sseResponse chunks)"
  "body (sseResponse chunks) = Some chunks"
  "content_type (sseResponse chunks) = Some ''text/event-stream; charset=utf-8''"
  "sublist ''text/event-stream'' ''text/event-stream; charset=utf-8''"
  by (simp_all add: answer_def sseResponse_def sublist_code(3))

text \<open>
  Claim C1, an instance of the amended statement: a stream of a \<^verbatim>\<open>start\<close>, a \<^verbatim>\<open>delta\<close> and a
  readable \<^verbatim>\<open>final\<close> event, cut inside an event name, completes.
\<close>

theorem sendMessageStreaming_completes_iff_witness:
  \<open>sseEvents (concat [''event: start\<newline>data: {}\<newline>\<newline>event: del'',
        ''ta\<newline>data: {"content":"Ho"}\<newline>\<newline>event: final\<newline>data: {"conversation_id":"c1","assistant_message":"Hola"}\<newline>\<newline>''])
     = [\<lparr>event = ''start'', data = ''{}''\<rparr>,
        \<lparr>event = ''delta'', data = ''{"content":"Ho"}''\<rparr>,
        \<lparr>event = ''final'', data = ''{"conversation_id":"c1","assistant_message":"Hola"}''\<rparr>] \<and>
   (\<exists>u'. sendMessageStreaming exampleJSON
      (answer (sseResponse [''event: start\<newline>data: {}\<newline>\<newline>event: del'',
        ''ta\<newline>data: {"content":"Ho"}\<newline>\<newline>event: final\<newline>data: {"conversation_id":"c1","assistant_message":"Hola"}\<newline>\<newline>'']))
      [] ''a1'' waitingUi = Inr u')\<close>
proof -
  let ?cs = \<open>[''event: start\<newline>data: {}\<newline>\<newline>event: del'',
        ''ta\<newline>data: {"content":"Ho"}\<newline>\<newline>event: final\<newline>data: {"conversation_id":"c1","assistant_message":"Hola"}\<newline>\<newline>'']\<close>
  have ev: \<open>sseEvents (concat ?cs)
     = [\<lparr>event = ''start'', data = ''{}''\<rparr>,
        \<lparr>event = ''delta'', data = ''{"content":"Ho"}''\<rparr>,
        \<lparr>event = ''final'', data = ''{"conversation_id":"c1","assistant_message":"Hola"}''\<rparr>]\<close>
    by code_simp
  have p: \<open>parseFinal exampleJSON ''{"conversation_id":"c1","assistant_message":"Hola"}'' \<noteq> None\<close>
    by code_simp
  have "(\<exists>e\<in>set (sseEvents (concat ?cs)). event e = ''final'') \<and>
        (\<forall>e\<in>set (sseEvents (concat ?cs)).
           event e \<noteq> ''error'' \<and> (event e = ''final'' \<longrightarrow> parseFinal exampleJSON (data e) \<noteq> None))"
    unfolding ev using p by simp
  then have "\<exists>u'. sendMessageStreaming exampleJSON (answer (sseResponse ?cs)) [] ''a1'' waitingUi = Inr u'"
    using sendMessageStreaming_completes_iff
      [where fetch = "answer (sseResponse ?cs)" and formData = "[]", OF sseResponse_streams,
        of exampleJSON "''a1''" waitingUi]
    by blast
  with ev show ?thesis by blast
qed

text \<open>
  Claim C1 as it is worded fails on a stream in which an \<^verbatim>\<open>error\<close> event follows the
  \<^verbatim>\<open>final\<close> event: a \<^verbatim>\<open>final\<close> event is parsed and no \<^verbatim>\<open>error\<close> event precedes it, but the
  loop goes on after \<^verbatim>\<open>final\<close>, reaches the \<^verbatim>\<open>error\<close> event and throws.
\<close>

theorem sendMessageStreaming_error_after_final_counterexample:
  \<open>sseEvents ''event: final\<newline>data: {"conversation_id":"c1","assistant_message":"Hola"}\<newline>\<newline>event: error\<newline>data: {"message":"fallo"}\<newline>\<newline>''
     = [\<lparr>event = ''final'', data = ''{"conversation_id":"c1","assistant_message":"Hola"}''\<rparr>,
        \<lparr>event = ''error'', data = ''{"message":"fallo"}''\<rparr>] \<and>
   sendMessageStreaming exampleJSON
      (answer (sseResponse [''event: final\<newline>data: {"conversation_id":"c1","assistant_message":"Hola"}\<newline>\<newline>event: error\<newline>data: {"message":"fallo"}\<newline>\<newline>'']))
      [] ''a1'' waitingUi
     = Inl (Error ''fallo'',
         \<lparr>conversationId = ''c1'', input = [], file' = None,
          messages = [\<lparr>msg_id = ''u1'', msg_role = user, msg_text = ''hola'', msg_data = None\<rparr>,
                      \<lparr>msg_id = ''a1'', msg_role = assistant, msg_text = ''Hola'',
                       msg_data = None\<rparr>],
          loading = True\<rparr>)\<close>
  by code_simp

section \<open>Events after a terminal event\<close>

lemma forEvents_after_error:
  "event e = ''error'' \<Longrightarrow>
   forEvents (handleEvent J a) s (pre @ e # rest) = forEvents (handleEvent J a) s (pre @ [e])"
  by (simp add: forEvents_append handleEvent_error split: sum.splits)

lemma sendMessageStreaming_after_error:
  assumes "event e = ''error''" "sseEvents (concat chunks) = pre @ e # rest"
    "sseEvents (concat chunks') = pre @ [e]"
  shows "sendMessageStreaming J (answer (r\<lparr>body := Some chunks\<rparr>)) formData a u =
         sendMessageStreaming J (answer (r\<lparr>body := Some chunks'\<rparr>)) formData a u"
  using assms(2,3) forEvents_after_error [OF assms(1), of J a _ pre rest]
  by (simp add: sendMessageStreaming_def answer_def Let_def readLoop_start)

text \<open>
  Claim C3, as amended. Once an \<^verbatim>\<open>error\<close> event has been processed, nothing that follows
  it in the stream changes anything: \<^verbatim>\<open>sendMessageStreaming\<close> and \<^verbatim>\<open>sendMessage\<close> end with the
  same error and the same state of the panel (message texts, attached data, conversation
  identifier) as for the stream that stops right after that event. After a \<^verbatim>\<open>final\<close> event
  the loop keeps dispatching what follows.
\<close>

theorem events_after_error_ignored:
  assumes "event e = ''error''" "sseEvents (concat chunks) = pre @ e # rest"
    "sseEvents (concat chunks') = pre @ [e]"
  shows "sendMessageStreaming J (answer (r\<lparr>body := Some chunks\<rparr>)) formData a u =
         sendMessageStreaming J (answer (r\<lparr>body := Some chunks'\<rparr>)) formData a u \<and>
         sendMessage J (answer (r\<lparr>body := Some chunks\<rparr>)) uuid1 uuid2 v =
         sendMessage J (answer (r\<lparr>body := Some chunks'\<rparr>)) uuid1 uuid2 v"
  by (simp add: sendMessage_def Let_def sendMessageStreaming_after_error [OF assms])

text \<open>
  Claim C3, an instance of the amended statement: a \<^verbatim>\<open>delta\<close> event after the \<^verbatim>\<open>error\<close>
  event leaves no trace.
\<close>

theorem events_after_error_ignored_witness:
  \<open>sendMessage exampleJSON
     (answer (sseResponse []\<lparr>body := Some [''event: error\<newline>data: {"message":"fallo"}\<newline>\<newline>event: delta\<newline>data: {"content":"Ho"}\<newline>\<newline>'']\<rparr>))
     ''u1'' ''a1'' (initialUi\<lparr>input := ''hola''\<rparr>)
   = (\<lparr>conversationId = [], input = [], file' = None,
       messages = [\<lparr>msg_id = ''u1'', msg_role = user, msg_text = ''hola'', msg_data = None\<rparr>,
                   \<lparr>msg_id = ''a1'', msg_role = assistant, msg_text = ''Error: fallo'',
                    msg_data = None\<rparr>],
       loading = False\<rparr>,
      [[(''message'', Text ''hola'')]])\<close>
proof -
  let ?e = \<open>\<lparr>event = ''error'', data = ''{"message":"fallo"}''\<rparr>\<close>
  let ?d = \<open>\<lparr>event = ''delta'', data = ''{"content":"Ho"}''\<rparr>\<close>
  let ?cs = \<open>[''event: error\<newline>data: {"message":"fallo"}\<newline>\<newline>event: delta\<newline>data: {"content":"Ho"}\<newline>\<newline>'']\<close>
  let ?cs' = \<open>[''event: error\<newline>data: {"message":"fallo"}\<newline>\<newline>'']\<close>
  have e: "event ?e = ''error''" by simp
  have ev: "sseEvents (concat ?cs) = [] @ ?e # [?d]" by code_simp
  have ev': "sseEvents (concat ?cs') = [] @ [?e]" by code_simp
  have "sendMessage exampleJSON (answer (sseResponse []\<lparr>body := Some ?cs\<rparr>))
          ''u1'' ''a1'' (initialUi\<lparr>input := ''hola''\<rparr>)
      = sendMessage exampleJSON (answer (sseResponse []\<lparr>body := Some ?cs'\<rparr>))
          ''u1'' ''a1'' (initialUi\<lparr>input := ''hola''\<rparr>)"
    using events_after_error_ignored [OF e ev ev'] by blast
  also have "\<dots> = (\<lparr>conversationId = [], input = [], file' = None,
       messages = [\<lparr>msg_id = ''u1'', msg_role = user, msg_text = ''hola'', msg_data = None\<rparr>,
                   \<lparr>msg_id = ''a1'', msg_role = assistant, msg_text = ''Error: fallo'',
                    msg_data = None\<rparr>],
       loading = False\<rparr>,
      [[(''message'', Text ''hola'')]])"
    by code_simp
  finally show ?thesis .
qed

text \<open>
  Claim C3 as it is worded fails after a \<^verbatim>\<open>final\<close> event: a \<^verbatim>\<open>start\<close> event that follows it
  in the stream puts the placeholder back in place of the final answer.
\<close>

theorem events_after_final_counterexample:
  \<open>sseEvents ''event: final\<newline>data: {"conversation_id":"c1","assistant_message":"Hola"}\<newline>\<newline>event: start\<newline>data: {}\<newline>\<newline>''
     = [\<lparr>event = ''final'', data = ''{"conversation_id":"c1","assistant_message":"Hola"}''\<rparr>,
        \<lparr>event = ''start'', data = ''{}''\<rparr>] \<and>
   sendMessage exampleJSON
     (answer (sseResponse [''event: final\<newline>data: {"conversation_id":"c1","assistant_message":"Hola"}\<newline>\<newline>'']))
     ''u1'' ''a1'' (initialUi\<lparr>input := ''hola''\<rparr>)
   = (\<lparr>conversationId = ''c1'', input = [], file' = None,
       messages = [\<lparr>msg_id = ''u1'', msg_role = user, msg_text = ''hola'', msg_data = None\<rparr>,
                   \<lparr>msg_id = ''a1'', msg_role = assistant, msg_text = ''Hola'',
                    msg_data = None\<rparr>],
       loading = False\<rparr>,
      [[(''message'', Text ''hola'')]]) \<and>
   sendMessage exampleJSON
     (answer (sseResponse [''event: final\<newline>data: {"conversation_id":"c1","assistant_message":"Hola"}\<newline>\<newline>event: start\<newline>data: {}\<newline>\<newline>'']))
     ''u1'' ''a1'' (initialUi\<lparr>input := ''hola''\<rparr>)
   = (\<lparr>conversationId = ''c1'', input = [], file' = None,
       messages = [\<lparr>msg_id = ''u1'', msg_role = user, msg_text = ''hola'', msg_data = None\<rparr>,
                   \<lparr>msg_id = ''a1'', msg_role = assistant, msg_text = ''Procesando...'',
                    msg_data = None\<rparr>],
       loading = False\<rparr>,
      [[(''message'', Text ''hola'')]])\<close>
  by code_simp

section \<open>The text built from the deltas\<close>

lemma appendMessageText_Nil: "appendMessageText a [] u = u"
proof -
  have "map (\<lambda>msg. if msg_id msg = a then msg\<lparr>msg_text := msg_text msg @ []\<rparr> else msg)
          (messages u) = messages u"
    by (rule map_idI) simp
  then show ?thesis by (simp add: appendMessageText_def)
qed









section \<open>A response that is not ok\<close>

text \<open>
  Claim C8, as amended. For a response whose status is not ok, \<^verbatim>\<open>sendMessageStreaming\<close>
  throws without reading the stream and without touching the panel. When the parsed body
  carries a truthy value at \<^verbatim>\<open>error.message\<close>, the message of the error is that value as a
  string: a non-empty string is the message itself, any other truthy value (a number, an
  array, an object) is converted, and the message is that of the \<^verbatim>\<open>TypeError\<close> when it
  cannot be converted. When the body carries no value there, or a falsy one (the empty
  string, \<^verbatim>\<open>null\<close>, \<^verbatim>\<open>false\<close>, zero), the message is the raw body text if that is not empty,
  and \<^verbatim>\<open>Error enviando mensaje\<close> if it is.
\<close>

theorem not_ok_response_throws:
  assumes "fetch formData = r" "\<not> ok r"
  shows "(errorMessageOf J (body_text r) = Some (JStr m) \<and> m \<noteq> [] \<longrightarrow>
            sendMessageStreaming J fetch formData a u = Inl (Error m, u)) \<and>
         (errorMessageOf J (body_text r) = Some w \<and> ToBoolean (numberFalsy J) w \<longrightarrow>
            sendMessageStreaming J fetch formData a u =
              Inl (Error (case ToString (numberToString J) w of
                            Some t \<Rightarrow> t
                          | None \<Rightarrow> typeErrorMessage J), u)) \<and>
         ((errorMessageOf J (body_text r) = None \<or>
           (\<exists>w. errorMessageOf J (body_text r) = Some w \<and> \<not> ToBoolean (numberFalsy J) w)) \<and>
          body_text r \<noteq> [] \<longrightarrow>
            sendMessageStreaming J fetch formData a u = Inl (Error (body_text r), u)) \<and>
         ((errorMessageOf J (body_text r) = None \<or>
           (\<exists>w. errorMessageOf J (body_text r) = Some w \<and> \<not> ToBoolean (numberFalsy J) w)) \<and>
          body_text r = [] \<longrightarrow>
            sendMessageStreaming J fetch formData a u = Inl (Error ''Error enviando mensaje'', u))"
proof (intro conjI impI)
  assume "errorMessageOf J (body_text r) = Some (JStr m) \<and> m \<noteq> []"
  then show "sendMessageStreaming J fetch formData a u = Inl (Error m, u)"
    using assms by (simp add: sendMessageStreaming_def parseApiError_def newError_def Let_def)
next
  assume "errorMessageOf J (body_text r) = Some w \<and> ToBoolean (numberFalsy J) w"
  then show "sendMessageStreaming J fetch formData a u =
      Inl (Error (case ToString (numberToString J) w of
                    Some t \<Rightarrow> t
                  | None \<Rightarrow> typeErrorMessage J), u)"
    using assms
    by (simp add: sendMessageStreaming_def parseApiError_def newError_def Let_def
        split: option.splits)
next
  assume "(errorMessageOf J (body_text r) = None \<or>
           (\<exists>w. errorMessageOf J (body_text r) = Some w \<and> \<not> ToBoolean (numberFalsy J) w)) \<and>
          body_text r \<noteq> []"
  then show "sendMessageStreaming J fetch formData a u = Inl (Error (body_text r), u)"
    using assms
    by (auto simp: sendMessageStreaming_def parseApiError_def newError_def Let_def)
next
  assume "(errorMessageOf J (body_text r) = None \<or>
           (\<exists>w. errorMessageOf J (body_text r) = Some w \<and> \<not> ToBoolean (numberFalsy J) w)) \<and>
          body_text r = []"
  then show "sendMessageStreaming J fetch formData a u =
      Inl (Error ''Error enviando mensaje'', u)"
    using assms
    by (auto simp: sendMessageStreaming_def parseApiError_def newError_def Let_def)
qed

text \<open>
  Claim C8, three instances of the amended statement: the structured error of a rejected
  upload surfaces its message, a message that is the number \<^verbatim>\<open>123\<close> surfaces as \<^verbatim>\<open>123\<close>,
  and a message that is the empty array (truthy, and the empty string once converted)
  gives the empty message; the body stream of the response plays no part.
\<close>

theorem not_ok_response_throws_witness:
  \<open>sendMessageStreaming exampleJSON
     (answer \<lparr>ok = False, body_text = ''{"error":{"message":"Archivo no soportado"}}'',
              body = Some [''event: final\<newline>data: {}\<newline>\<newline>''],
              content_type = Some ''application/json''\<rparr>)
     [] ''a1'' waitingUi
   = Inl (Error ''Archivo no soportado'', waitingUi) \<and>
   sendMessageStreaming exampleJSON
     (answer \<lparr>ok = False, body_text = ''{"error":{"message":123}}'', body = None,
              content_type = Some ''application/json''\<rparr>)
     [] ''a1'' waitingUi
   = Inl (Error ''123'', waitingUi) \<and>
   sendMessageStreaming exampleJSON
     (answer \<lparr>ok = False, body_text = ''{"error":{"message":[]}}'', body = None,
              content_type = Some ''application/json''\<rparr>)
     [] ''a1'' waitingUi
   = Inl (Error [], waitingUi)\<close>
proof -
  let ?r = \<open>\<lparr>ok = False, body_text = ''{"error":{"message":"Archivo no soportado"}}'',
              body = Some [''event: final\<newline>data: {}\<newline>\<newline>''],
              content_type = Some ''application/json''\<rparr>\<close>
  let ?r' = \<open>\<lparr>ok = False, body_text = ''{"error":{"message":123}}'', body = None,
              content_type = Some ''application/json''\<rparr>\<close>
  have f: "answer ?r [] = ?r" by (simp add: answer_def)
  have n: "\<not> ok ?r" by simp
  have m: "errorMessageOf exampleJSON (body_text ?r) = Some (JStr ''Archivo no soportado'') \<and>
           ''Archivo no soportado'' \<noteq> []"
    by code_simp
  have 1: "sendMessageStreaming exampleJSON (answer ?r) [] ''a1'' waitingUi
      = Inl (Error ''Archivo no soportado'', waitingUi)"
    using not_ok_response_throws [where fetch = "answer ?r" and formData = "[]", OF f n,
        of exampleJSON "''Archivo no soportado''" "''a1''" waitingUi] m
    by blast
  have f': "answer ?r' [] = ?r'" by (simp add: answer_def)
  have n': "\<not> ok ?r'" by simp
  have m': "errorMessageOf exampleJSON (body_text ?r') = Some (JNum 123) \<and>
           ToBoolean (numberFalsy exampleJSON) (JNum 123)"
    by code_simp
  have t: "(case ToString (numberToString exampleJSON) (JNum 123) of
              Some t \<Rightarrow> t
            | None \<Rightarrow> typeErrorMessage exampleJSON) = ''123''"
    by code_simp
  have "sendMessageStreaming exampleJSON (answer ?r') [] ''a1'' waitingUi
      = Inl (Error (case ToString (numberToString exampleJSON) (JNum 123) of
              Some t \<Rightarrow> t
            | None \<Rightarrow> typeErrorMessage exampleJSON), waitingUi)"
    using not_ok_response_throws [where fetch = "answer ?r'" and formData = "[]"
        and J = exampleJSON and w = "JNum 123" and a = "''a1''" and u = waitingUi, OF f' n'] m'
    by blast
  then have 2: "sendMessageStreaming exampleJSON (answer ?r') [] ''a1'' waitingUi
      = Inl (Error ''123'', waitingUi)"
    unfolding t .
  let ?r'' = \<open>\<lparr>ok = False, body_text = ''{"error":{"message":[]}}'', body = None,
              content_type = Some ''application/json''\<rparr>\<close>
  have f'': "answer ?r'' [] = ?r''" by (simp add: answer_def)
  have n'': "\<not> ok ?r''" by simp
  have m'': "errorMessageOf exampleJSON (body_text ?r'') = Some (JArr []) \<and>
           ToBoolean (numberFalsy exampleJSON) (JArr [])"
    by code_simp
  have t'': "(case ToString (numberToString exampleJSON) (JArr []) of
              Some t \<Rightarrow> t
            | None \<Rightarrow> typeErrorMessage exampleJSON) = []"
    by code_simp
  have "sendMessageStreaming exampleJSON (answer ?r'') [] ''a1'' waitingUi
      = Inl (Error (case ToString (numberToString exampleJSON) (JArr []) of
              Some t \<Rightarrow> t
            | None \<Rightarrow> typeErrorMessage exampleJSON), waitingUi)"
    using not_ok_response_throws [where fetch = "answer ?r''" and formData = "[]"
        and J = exampleJSON and w = "JArr []" and a = "''a1''" and u = waitingUi, OF f'' n''] m''
    by blast
  then have 3: "sendMessageStreaming exampleJSON (answer ?r'') [] ''a1'' waitingUi
      = Inl (Error [], waitingUi)"
    unfolding t'' .
  from 1 2 3 show ?thesis by (intro conjI)
qed

text \<open>
  Claim C8 as it is worded fails on a body that carries the empty string at
  \<^verbatim>\<open>error.message\<close>: the error then shows the raw body text, neither the (empty) message nor
  \<^verbatim>\<open>Error enviando mensaje\<close>.
\<close>

theorem not_ok_empty_message_counterexample:
  \<open>errorMessageOf exampleJSON ''{"error":{"message":""}}'' = Some (JStr []) \<and>
   sendMessageStreaming exampleJSON
     (answer \<lparr>ok = False, body_text = ''{"error":{"message":""}}'', body = None,
              content_type = Some ''application/json''\<rparr>)
     [] ''a1'' waitingUi
   = Inl (Error ''{"error":{"message":""}}'', waitingUi)\<close>
  by code_simp

section \<open>The payload of a manual correction\<close>

text \<open>
  Claim C7. When a receipt is loaded in the editor, \<^verbatim>\<open>saveManualCorrection\<close> sends a PATCH
  request for that receipt whose payload maps each of \<^verbatim>\<open>vendor_name\<close>, \<^verbatim>\<open>receipt_number\<close>,
  \<^verbatim>\<open>payment_method\<close>, \<^verbatim>\<open>status\<close>, \<^verbatim>\<open>currency\<close> and \<^verbatim>\<open>issue_date\<close> to \<^verbatim>\<open>null\<close> when the
  editor field is empty and to the entered string otherwise, and holds the keys
  \<^verbatim>\<open>subtotal\<close>, \<^verbatim>\<open>tax\<close> and \<^verbatim>\<open>total\<close> exactly when their fields are not empty, each with
  the numeric conversion of the entered string; it holds no other key.
\<close>

theorem saveManualCorrection_payload:
  assumes "editableReceipt ed = Some r"
  shows "\<exists>ed' payload.
     saveManualCorrection Number ed = (ed', Some (rcpt_id r, payload)) \<and>
     payload ''vendor_name'' = Some (if vendor_name r = [] then Null else Str (vendor_name r)) \<and>
     payload ''receipt_number'' = Some (if receipt_number r = [] then Null else Str (receipt_number r)) \<and>
     payload ''payment_method'' = Some (if payment_method r = [] then Null else Str (payment_method r)) \<and>
     payload ''status'' = Some (if status r = [] then Null else Str (status r)) \<and>
     payload ''currency'' = Some (if currency r = [] then Null else Str (currency r)) \<and>
     payload ''issue_date'' = Some (if issue_date r = [] then Null else Str (issue_date r)) \<and>
     payload ''subtotal'' = (if subtotal r = [] then None else Some (Num (Number (subtotal r)))) \<and>
     payload ''tax'' = (if tax r = [] then None else Some (Num (Number (tax r)))) \<and>
     payload ''total'' = (if total r = [] then None else Some (Num (Number (total r)))) \<and>
     dom payload \<subseteq> {''vendor_name'', ''receipt_number'', ''payment_method'', ''status'',
                      ''currency'', ''issue_date'', ''subtotal'', ''tax'', ''total''}"
  using assms by (simp add: saveManualCorrection_def orNull_def Let_def)

text \<open>
  Claim C7, an instance: a receipt with an empty receipt number and an empty tax.
\<close>

theorem saveManualCorrection_payload_witness:
  "\<exists>ed' payload.
     saveManualCorrection exampleNumber
       \<lparr>editReceiptId = ''r1'',
        editableReceipt = Some \<lparr>rcpt_id = ''r1'', vendor_name = ''ACME'', receipt_number = [],
          payment_method = ''cash'', status = ''processed'', currency = ''PEN'', issue_date = [],
          subtotal = ''100'', tax = [], total = ''118''\<rparr>,
        editorLoading = False, editorMessage = []\<rparr> = (ed', Some (''r1'', payload)) \<and>
     payload ''vendor_name'' = Some (Str ''ACME'') \<and>
     payload ''receipt_number'' = Some Null \<and>
     payload ''subtotal'' = Some (Num 100) \<and>
     payload ''tax'' = None \<and>
     payload ''total'' = Some (Num 118)"
proof -
  let ?r = "\<lparr>rcpt_id = ''r1'', vendor_name = ''ACME'', receipt_number = [],
          payment_method = ''cash'', status = ''processed'', currency = ''PEN'', issue_date = [],
          subtotal = ''100'', tax = [], total = ''118''\<rparr>"
  let ?ed = "\<lparr>editReceiptId = ''r1'', editableReceipt = Some ?r,
        editorLoading = False, editorMessage = []\<rparr>"
  have h: "editableReceipt ?ed = Some ?r" by simp
  obtain ed' payload where
    "saveManualCorrection exampleNumber ?ed = (ed', Some (rcpt_id ?r, payload))"
    "payload ''vendor_name'' = Some (if vendor_name ?r = [] then Null else Str (vendor_name ?r))"
    "payload ''receipt_number'' =
       Some (if receipt_number ?r = [] then Null else Str (receipt_number ?r))"
    "payload ''subtotal'' =
       (if subtotal ?r = [] then None else Some (Num (exampleNumber (subtotal ?r))))"
    "payload ''tax'' = (if tax ?r = [] then None else Some (Num (exampleNumber (tax ?r))))"
    "payload ''total'' = (if total ?r = [] then None else Some (Num (exampleNumber (total ?r))))"
    using saveManualCorrection_payload [OF h, of exampleNumber] by blast
  then show ?thesis
    by (intro exI [of _ ed'] exI [of _ payload]) (simp add: exampleNumber_def)
qed

section \<open>The message list keeps its shape\<close>

lemma sameMessages_refl: "sameMessages u u"
  by (simp add: sameMessages_def)

lemma sameMessages_trans: "sameMessages u v \<Longrightarrow> sameMessages v w \<Longrightarrow> sameMessages u w"
  by (simp add: sameMessages_def)

lemma patchMessage_same: "sameMessages u (patchMessage a p u)"
  by (simp add: sameMessages_def patchMessage_def applyPatch_def o_def if_distrib cong: if_cong)

lemma appendMessageText_same: "sameMessages u (appendMessageText a t u)"
  by (simp add: sameMessages_def appendMessageText_def o_def if_distrib cong: if_cong)

lemma conversationId_update_same: "sameMessages u (u\<lparr>conversationId := c\<rparr>)"
  by (simp add: sameMessages_def)

lemma handleEvent_same:
  assumes "handleEvent J a (u, f) e = Inr (u', f')"
  shows "sameMessages u u'"
proof (rule handleEvent_cases [of e])
  assume "event e = ''start''"
  with assms show ?thesis by (auto simp: handleEvent_start patchMessage_same)
next
  assume "event e = ''delta''"
  with assms show ?thesis
    by (auto simp: handleEvent_delta appendMessageText_same sameMessages_refl split: if_splits
        intro: sameMessages_trans [OF patchMessage_same appendMessageText_same])
next
  assume "event e = ''error''"
  with assms show ?thesis by (simp add: handleEvent_error)
next
  assume "event e = ''final''"
  with assms show ?thesis
    by (auto simp: handleEvent_final split: option.splits
        intro: sameMessages_trans [OF conversationId_update_same patchMessage_same])
next
  assume "event e \<noteq> ''start''" "event e \<noteq> ''delta''" "event e \<noteq> ''error''" "event e \<noteq> ''final''"
  with assms show ?thesis by (simp add: handleEvent_other sameMessages_refl)
qed

lemma forEvents_same:
  "(case forEvents (handleEvent J a) (u, f) evs of
      Inl (x, (u', f')) \<Rightarrow> sameMessages u u'
    | Inr (u', f') \<Rightarrow> sameMessages u u')"
proof (induction evs arbitrary: u f)
  case Nil
  show ?case by (simp add: sameMessages_refl)
next
  case (Cons e evs)
  show ?case
  proof (cases "handleEvent J a (u, f) e")
    case (Inl x)
    then show ?thesis by (simp add: sameMessages_refl)
  next
    case (Inr s1)
    obtain u1 f1 where s1: "s1 = (u1, f1)" by (cases s1)
    have "sameMessages u u1" using Inr s1 handleEvent_same by blast
    then show ?thesis
      using Cons.IH [of u1 f1] Inr s1
      by (auto split: sum.splits intro: sameMessages_trans)
  qed
qed

lemma forEvents_same_Inl:
  "forEvents (handleEvent J a) (u, f) evs = Inl (x, (u', f')) \<Longrightarrow> sameMessages u u'"
  using forEvents_same [where J = J and a = a and u = u and f = f and evs = evs] by simp

lemma forEvents_same_Inr:
  "forEvents (handleEvent J a) (u, f) evs = Inr (u', f') \<Longrightarrow> sameMessages u u'"
  using forEvents_same [where J = J and a = a and u = u and f = f and evs = evs] by simp

lemma sendMessageStreaming_same:
  "(case sendMessageStreaming J fetch formData a u of
      Inl (x, u') \<Rightarrow> sameMessages u u'
    | Inr u' \<Rightarrow> sameMessages u u')"
  by (auto simp: sendMessageStreaming_def Let_def readLoop_start sameMessages_refl
      split: option.splits sum.splits
      dest: forEvents_same_Inl forEvents_same_Inr)

text \<open>\<^verbatim>\<open>sendMessage\<close> in the branch that sends.\<close>

lemma sendMessage_sends:
  assumes "\<not> loading v" "trim (input v) \<noteq> [] \<or> file' v \<noteq> None"
  shows "sendMessage J fetch uuid1 uuid2 v =
     ((case sendMessageStreaming J fetch
              (buildFormData (conversationId v) (trim (input v)) (file' v)) uuid2
              (v\<lparr>messages := messages v @
                   [\<lparr>msg_id = uuid1, msg_role = user,
                     msg_text = (case file' v of
                                   Some fl \<Rightarrow> (if trim (input v) \<noteq> [] then trim (input v)
                                                else ''Archivo enviado'') @ '' ('' @ name fl @ '')''
                                 | None \<Rightarrow> trim (input v)),
                     msg_data = None\<rparr>,
                    \<lparr>msg_id = uuid2, msg_role = assistant, msg_text = ''Procesando...'',
                     msg_data = None\<rparr>],
                 input := [], file' := None, loading := True\<rparr>) of
         Inl (Error m, u') \<Rightarrow>
           patchMessage uuid2 \<lparr>new_text = Some (''Error: '' @ m), new_data = Some None\<rparr> u'
       | Inr u' \<Rightarrow> u')\<lparr>loading := False\<rparr>,
      [buildFormData (conversationId v) (trim (input v)) (file' v)])"
  using assms by (simp add: sendMessage_def Let_def appendMessage_def)

section \<open>Submitting a turn\<close>

lemma buildFormData_fields:
  "map_of (buildFormData c t fl) ''conversation_id'' = (if c \<noteq> [] then Some (Text c) else None)"
  "map_of (buildFormData c t fl) ''message'' = (if t \<noteq> [] then Some (Text t) else None)"
  "map_of (buildFormData c t fl) ''file'' = map_option Blob fl"
  "''message'' \<in> fst ` set (buildFormData c t fl) \<longleftrightarrow> t \<noteq> []"
  "''file'' \<in> fst ` set (buildFormData c t fl) \<longleftrightarrow> fl \<noteq> None"
  "''conversation_id'' \<in> fst ` set (buildFormData c t fl) \<longleftrightarrow> c \<noteq> []"
  by (auto simp: buildFormData_def split: option.splits)

text \<open>What a turn that sends leaves behind, whatever the stream did.\<close>

lemma sendMessage_result:
  assumes "\<not> loading v" "trim (input v) \<noteq> [] \<or> file' v \<noteq> None"
  shows "\<exists>v'. sendMessage J fetch uuid1 uuid2 v =
             (v', [buildFormData (conversationId v) (trim (input v)) (file' v)]) \<and>
           map msg_id (messages v') = map msg_id (messages v) @ [uuid1, uuid2] \<and>
           map msg_role (messages v') = map msg_role (messages v) @ [user, assistant] \<and>
           \<not> loading v'"
proof -
  define fd where "fd = buildFormData (conversationId v) (trim (input v)) (file' v)"
  define u3 where "u3 = v\<lparr>messages := messages v @
                   [\<lparr>msg_id = uuid1, msg_role = user,
                     msg_text = (case file' v of
                                   Some fl \<Rightarrow> (if trim (input v) \<noteq> [] then trim (input v)
                                                else ''Archivo enviado'') @ '' ('' @ name fl @ '')''
                                 | None \<Rightarrow> trim (input v)),
                     msg_data = None\<rparr>,
                    \<lparr>msg_id = uuid2, msg_role = assistant, msg_text = ''Procesando...'',
                     msg_data = None\<rparr>],
                 input := [], file' := None, loading := True\<rparr>"
  define res where "res = sendMessageStreaming J fetch fd uuid2 u3"
  define u4 where "u4 = (case res of
         Inl (Error m, u') \<Rightarrow>
           patchMessage uuid2 \<lparr>new_text = Some (''Error: '' @ m), new_data = Some None\<rparr> u'
       | Inr u' \<Rightarrow> u')"
  have eq: "sendMessage J fetch uuid1 uuid2 v = (u4\<lparr>loading := False\<rparr>, [fd])"
    unfolding u4_def res_def fd_def u3_def by (rule sendMessage_sends [OF assms])
  have same: "sameMessages u3 u4"
  proof (cases res)
    case (Inl x)
    obtain e u' where x: "x = (e, u')" by (cases x)
    obtain m where e: "e = Error m" by (cases e)
    have "sameMessages u3 u'"
      using sendMessageStreaming_same [where J = J and fetch = fetch and formData = fd
          and a = uuid2 and u = u3] Inl x
      unfolding res_def by simp
    then show ?thesis
      unfolding u4_def using Inl x e by (simp add: sameMessages_trans [OF _ patchMessage_same])
  next
    case (Inr u')
    have "sameMessages u3 u'"
      using sendMessageStreaming_same [where J = J and fetch = fetch and formData = fd
          and a = uuid2 and u = u3] Inr
      unfolding res_def by simp
    then show ?thesis unfolding u4_def using Inr by simp
  qed
  have "map msg_id (messages u3) = map msg_id (messages v) @ [uuid1, uuid2]"
    "map msg_role (messages u3) = map msg_role (messages v) @ [user, assistant]"
    by (simp_all add: u3_def)
  with same have
    "map msg_id (messages (u4\<lparr>loading := False\<rparr>)) = map msg_id (messages v) @ [uuid1, uuid2]"
    "map msg_role (messages (u4\<lparr>loading := False\<rparr>)) = map msg_role (messages v) @ [user, assistant]"
    by (simp_all add: sameMessages_def)
  with eq show ?thesis unfolding fd_def by simp
qed

text \<open>
  Claim C5, as amended. A submission with an empty trimmed text and no file sends no
  request and appends no message, and neither does any submission made while a turn is in
  progress (\<^verbatim>\<open>loading\<close>). Otherwise exactly one request is sent and two messages are
  appended, the user's and the assistant's, in this order; the request holds the field
  \<^verbatim>\<open>message\<close> (the trimmed text) if and only if the trimmed text is not empty, and the field
  \<^verbatim>\<open>file\<close> if and only if a file is selected.
\<close>

theorem sendMessage_guard:
  "(trim (input v) = [] \<and> file' v = None \<longrightarrow> sendMessage J fetch uuid1 uuid2 v = (v, [])) \<and>
   (loading v \<longrightarrow> sendMessage J fetch uuid1 uuid2 v = (v, [])) \<and>
   (\<not> loading v \<and> (trim (input v) \<noteq> [] \<or> file' v \<noteq> None) \<longrightarrow>
      (\<exists>v' formData.
         sendMessage J fetch uuid1 uuid2 v = (v', [formData]) \<and>
         map msg_id (messages v') = map msg_id (messages v) @ [uuid1, uuid2] \<and>
         map msg_role (messages v') = map msg_role (messages v) @ [user, assistant] \<and>
         (''message'' \<in> fst ` set formData \<longleftrightarrow> trim (input v) \<noteq> []) \<and>
         (''file'' \<in> fst ` set formData \<longleftrightarrow> file' v \<noteq> None) \<and>
         map_of formData ''message'' =
           (if trim (input v) \<noteq> [] then Some (Text (trim (input v))) else None) \<and>
         map_of formData ''file'' = map_option Blob (file' v)))"
proof (intro conjI impI)
  assume "trim (input v) = [] \<and> file' v = None"
  then show "sendMessage J fetch uuid1 uuid2 v = (v, [])"
    by (simp add: sendMessage_def)
next
  assume "loading v"
  then show "sendMessage J fetch uuid1 uuid2 v = (v, [])"
    by (simp add: sendMessage_def)
next
  assume "\<not> loading v \<and> (trim (input v) \<noteq> [] \<or> file' v \<noteq> None)"
  then obtain v' where
    "sendMessage J fetch uuid1 uuid2 v =
       (v', [buildFormData (conversationId v) (trim (input v)) (file' v)])"
    "map msg_id (messages v') = map msg_id (messages v) @ [uuid1, uuid2]"
    "map msg_role (messages v') = map msg_role (messages v) @ [user, assistant]"
    using sendMessage_result [where v = v and J = J and fetch = fetch and ?uuid1.0 = uuid1
        and ?uuid2.0 = uuid2] by blast
  then show "\<exists>v' formData.
         sendMessage J fetch uuid1 uuid2 v = (v', [formData]) \<and>
         map msg_id (messages v') = map msg_id (messages v) @ [uuid1, uuid2] \<and>
         map msg_role (messages v') = map msg_role (messages v) @ [user, assistant] \<and>
         (''message'' \<in> fst ` set formData \<longleftrightarrow> trim (input v) \<noteq> []) \<and>
         (''file'' \<in> fst ` set formData \<longleftrightarrow> file' v \<noteq> None) \<and>
         map_of formData ''message'' =
           (if trim (input v) \<noteq> [] then Some (Text (trim (input v))) else None) \<and>
         map_of formData ''file'' = map_option Blob (file' v)"
    by (intro exI [of _ v']
        exI [of _ "buildFormData (conversationId v) (trim (input v)) (file' v)"])
      (simp add: buildFormData_fields)
qed

text \<open>
  Claim C5, an instance of the amended statement: a text with spaces around it and a file.
\<close>

theorem sendMessage_guard_witness:
  \<open>\<exists>v' formData.
     sendMessage exampleJSON
       (answer (sseResponse [''event: final\<newline>data: {"conversation_id":"c1","assistant_message":"Hola"}\<newline>\<newline>'']))
       ''u1'' ''a1'' (initialUi\<lparr>input := '' hola '', file' := Some \<lparr>name = ''boleta.pdf''\<rparr>\<rparr>)
       = (v', [formData]) \<and>
     map msg_id (messages v') = [''u1'', ''a1''] \<and>
     map msg_role (messages v') = [user, assistant] \<and>
     map_of formData ''message'' = Some (Text ''hola'') \<and>
     map_of formData ''file'' = Some (Blob \<lparr>name = ''boleta.pdf''\<rparr>)\<close>
proof -
  let ?v = "initialUi\<lparr>input := '' hola '', file' := Some \<lparr>name = ''boleta.pdf''\<rparr>\<rparr>"
  let ?fetch = \<open>answer (sseResponse [''event: final\<newline>data: {"conversation_id":"c1","assistant_message":"Hola"}\<newline>\<newline>''])\<close>
  have t: "trim (input ?v) = ''hola''" by code_simp
  have h: "\<not> loading ?v \<and> (trim (input ?v) \<noteq> [] \<or> file' ?v \<noteq> None)"
    by (simp add: initialUi_def)
  obtain v' formData where
    "sendMessage exampleJSON ?fetch ''u1'' ''a1'' ?v = (v', [formData])"
    "map msg_id (messages v') = map msg_id (messages ?v) @ [''u1'', ''a1'']"
    "map msg_role (messages v') = map msg_role (messages ?v) @ [user, assistant]"
    "map_of formData ''message'' =
       (if trim (input ?v) \<noteq> [] then Some (Text (trim (input ?v))) else None)"
    "map_of formData ''file'' = map_option Blob (file' ?v)"
    using sendMessage_guard [where v = ?v and J = exampleJSON and fetch = ?fetch
        and ?uuid1.0 = "''u1''" and ?uuid2.0 = "''a1''"] h
    by blast
  then show ?thesis
    unfolding t
    by (intro exI [of _ v'] exI [of _ formData]) (simp add: initialUi_def)
qed

text \<open>
  Claim C5 as it is worded fails while a turn is in progress: the text is present, but the
  guard \<^verbatim>\<open>if (loading) return\<close> sends nothing and appends nothing.
\<close>

theorem sendMessage_while_loading_counterexample:
  "trim (input (initialUi\<lparr>input := ''hola'', loading := True\<rparr>)) = ''hola'' \<and>
   sendMessage exampleJSON (answer (sseResponse [])) ''u1'' ''a1''
     (initialUi\<lparr>input := ''hola'', loading := True\<rparr>)
   = (initialUi\<lparr>input := ''hola'', loading := True\<rparr>, [])"
  by code_simp

section \<open>An error event ends the turn with a visible message\<close>

lemma forEvents_first_error:
  assumes "\<forall>x\<in>set pre. event x \<noteq> ''final'' \<and> event x \<noteq> ''error''" "event e = ''error''"
  shows "\<exists>s'. forEvents (handleEvent J a) s (pre @ e # rest)
           = Inl (newError J (streamErrorMessage J (data e)), s')"
proof -
  have "\<forall>x\<in>set pre. event x \<noteq> ''error'' \<and> (event x = ''final'' \<longrightarrow> parseFinal J (data x) \<noteq> None)"
    using assms(1) by simp
  then obtain s' where "forEvents (handleEvent J a) s pre = Inr s'"
    using forEvents_completes_iff [of J a s pre] by blast
  then show ?thesis
    by (simp add: forEvents_append handleEvent_error [OF assms(2)])
qed

lemma sendMessageStreaming_first_error:
  assumes "fetch formData = r" "ok r" "body r = Some chunks" "content_type r = Some ct"
    "sublist ''text/event-stream'' ct" "sseEvents (concat chunks) = pre @ e # rest"
    "\<forall>x\<in>set pre. event x \<noteq> ''final'' \<and> event x \<noteq> ''error''" "event e = ''error''"
  shows "\<exists>u'. sendMessageStreaming J fetch formData a u
           = Inl (newError J (streamErrorMessage J (data e)), u')"
proof -
  obtain s' where "forEvents (handleEvent J a) (u, \<lparr>hasDelta = False, gotFinal = False\<rparr>)
      (sseEvents (concat chunks)) = Inl (newError J (streamErrorMessage J (data e)), s')"
    unfolding assms(6) using forEvents_first_error [OF assms(7,8)] by blast
  then show ?thesis
    unfolding sendMessageStreaming_stream [where fetch = fetch and formData = formData,
        OF assms(1-5)]
    by (cases s') simp
qed

lemma last_patchMessage:
  assumes "messages u \<noteq> []" "msg_id (last (messages u)) = a"
  shows "last (messages (patchMessage a \<lparr>new_text = Some t, new_data = Some d\<rparr> u))
         = \<lparr>msg_id = a, msg_role = msg_role (last (messages u)), msg_text = t, msg_data = d\<rparr>"
  using assms by (cases "last (messages u)") (simp add: patchMessage_def applyPatch_def last_map)

text \<open>
  Claim C4, as amended. When the first terminal event of the stream is an \<^verbatim>\<open>error\<close> event
  (no \<^verbatim>\<open>final\<close> event before it), \<^verbatim>\<open>sendMessageStreaming\<close> throws an error whose message
  is: the \<^verbatim>\<open>message\<close> field of the payload of that event when that field is a string;
  \<^verbatim>\<open>Error en streaming\<close> when the payload cannot be read or has no such field or has
  \<^verbatim>\<open>null\<close> there; and for any other value of the field (a number, a boolean, an array, an
  object) that value converted to a string, or the message of the \<^verbatim>\<open>TypeError\<close> when it
  cannot be converted. \<^verbatim>\<open>sendMessage\<close> then leaves the assistant message with the text
  \<^verbatim>\<open>Error: \<close> followed by that message and without data, and the panel is no longer
  loading.
\<close>

theorem stream_error_shown:
  assumes "ok r" "body r = Some chunks" "content_type r = Some ct"
    "sublist ''text/event-stream'' ct" "sseEvents (concat chunks) = pre @ e # rest"
    "\<forall>x\<in>set pre. event x \<noteq> ''final'' \<and> event x \<noteq> ''error''" "event e = ''error''"
    "\<not> loading v" "trim (input v) \<noteq> [] \<or> file' v \<noteq> None"
  shows
    "(let M = (case parseError J (data e) of
                 None \<Rightarrow> ''Error en streaming''
               | Some p \<Rightarrow>
                   (case message p of
                      None \<Rightarrow> ''Error en streaming''
                    | Some JNull \<Rightarrow> ''Error en streaming''
                    | Some (JStr s) \<Rightarrow> s
                    | Some w \<Rightarrow> (case ToString (numberToString J) w of
                                  Some t \<Rightarrow> t
                                | None \<Rightarrow> typeErrorMessage J)))
      in (\<exists>u'. sendMessageStreaming J (answer r) formData a u = Inl (Error M, u')) \<and>
         (\<exists>v' fd. sendMessage J (answer r) uuid1 uuid2 v = (v', [fd]) \<and>
            last (messages v') =
              \<lparr>msg_id = uuid2, msg_role = assistant, msg_text = ''Error: '' @ M,
               msg_data = None\<rparr> \<and>
            \<not> loading v'))"
proof -
  define M where "M = (case parseError J (data e) of
                 None \<Rightarrow> ''Error en streaming''
               | Some p \<Rightarrow>
                   (case message p of
                      None \<Rightarrow> ''Error en streaming''
                    | Some JNull \<Rightarrow> ''Error en streaming''
                    | Some (JStr s) \<Rightarrow> s
                    | Some w \<Rightarrow> (case ToString (numberToString J) w of
                                  Some t \<Rightarrow> t
                                | None \<Rightarrow> typeErrorMessage J)))"
  have M: "newError J (streamErrorMessage J (data e)) = Error M"
    by (simp add: M_def newError_def streamErrorMessage_def parseJson_def
        split: option.splits json.splits)
  have throws: "\<exists>u'. sendMessageStreaming J (answer r) fd' a' w = Inl (Error M, u')" for fd' a' w
    unfolding M [symmetric]
    by (rule sendMessageStreaming_first_error [where fetch = "answer r" and formData = fd',
          OF _ assms(1-7)]) (simp add: answer_def)
  define fd where "fd = buildFormData (conversationId v) (trim (input v)) (file' v)"
  define u3 where "u3 = v\<lparr>messages := messages v @
                   [\<lparr>msg_id = uuid1, msg_role = user,
                     msg_text = (case file' v of
                                   Some fl \<Rightarrow> (if trim (input v) \<noteq> [] then trim (input v)
                                                else ''Archivo enviado'') @ '' ('' @ name fl @ '')''
                                 | None \<Rightarrow> trim (input v)),
                     msg_data = None\<rparr>,
                    \<lparr>msg_id = uuid2, msg_role = assistant, msg_text = ''Procesando...'',
                     msg_data = None\<rparr>],
                 input := [], file' := None, loading := True\<rparr>"
  obtain u' where res: "sendMessageStreaming J (answer r) fd uuid2 u3 = Inl (Error M, u')"
    using throws by blast
  have "sameMessages u3 u'"
    using sendMessageStreaming_same [where J = J and fetch = "answer r" and formData = fd
        and a = uuid2 and u = u3] res by simp
  then have ids: "map msg_id (messages u') = map msg_id (messages v) @ [uuid1, uuid2]"
    and roles: "map msg_role (messages u') = map msg_role (messages v) @ [user, assistant]"
    by (simp_all add: sameMessages_def u3_def)
  from ids have ne: "messages u' \<noteq> []" by auto
  have "msg_id (last (messages u')) = last (map msg_id (messages u'))"
    using ne by (simp add: last_map)
  then have lid: "msg_id (last (messages u')) = uuid2" unfolding ids by simp
  have "msg_role (last (messages u')) = last (map msg_role (messages u'))"
    using ne by (simp add: last_map)
  then have lrole: "msg_role (last (messages u')) = assistant" unfolding roles by simp
  let ?u4 = "patchMessage uuid2 \<lparr>new_text = Some (''Error: '' @ M), new_data = Some None\<rparr> u'"
  have eq: "sendMessage J (answer r) uuid1 uuid2 v = (?u4\<lparr>loading := False\<rparr>, [fd])"
    using sendMessage_sends [OF assms(8,9), of J "answer r" uuid1 uuid2] res
    unfolding fd_def u3_def by simp
  have "last (messages (?u4\<lparr>loading := False\<rparr>)) =
      \<lparr>msg_id = uuid2, msg_role = assistant, msg_text = ''Error: '' @ M, msg_data = None\<rparr>"
    using last_patchMessage [OF ne lid, of "''Error: '' @ M" None] lrole by simp
  moreover have "\<not> loading (?u4\<lparr>loading := False\<rparr>)" by simp
  ultimately have "(\<exists>u'. sendMessageStreaming J (answer r) formData a u = Inl (Error M, u')) \<and>
         (\<exists>v' fd. sendMessage J (answer r) uuid1 uuid2 v = (v', [fd]) \<and>
            last (messages v') =
              \<lparr>msg_id = uuid2, msg_role = assistant, msg_text = ''Error: '' @ M,
               msg_data = None\<rparr> \<and>
            \<not> loading v')"
    using eq throws by blast
  then show ?thesis unfolding M_def Let_def .
qed

text \<open>
  Claim C4, an instance of the amended statement: a \<^verbatim>\<open>start\<close> event and then an \<^verbatim>\<open>error\<close>
  event with the message \<^verbatim>\<open>fallo\<close>.
\<close>

theorem stream_error_shown_witness:
  \<open>(\<exists>u'. sendMessageStreaming exampleJSON
       (answer (sseResponse [''event: start\<newline>data: {}\<newline>\<newline>event: error\<newline>data: {"message":"fallo"}\<newline>\<newline>'']))
       [] ''a1'' waitingUi = Inl (Error ''fallo'', u')) \<and>
   (\<exists>v' fd. sendMessage exampleJSON
       (answer (sseResponse [''event: start\<newline>data: {}\<newline>\<newline>event: error\<newline>data: {"message":"fallo"}\<newline>\<newline>'']))
       ''u1'' ''a1'' (initialUi\<lparr>input := ''hola''\<rparr>) = (v', [fd]) \<and>
      last (messages v') =
        \<lparr>msg_id = ''a1'', msg_role = assistant, msg_text = ''Error: fallo'', msg_data = None\<rparr> \<and>
      \<not> loading v')\<close>
proof -
  let ?cs = \<open>[''event: start\<newline>data: {}\<newline>\<newline>event: error\<newline>data: {"message":"fallo"}\<newline>\<newline>'']\<close>
  let ?e = \<open>\<lparr>event = ''error'', data = ''{"message":"fallo"}''\<rparr>\<close>
  let ?v = "initialUi\<lparr>input := ''hola''\<rparr>"
  have ev: "sseEvents (concat ?cs) = [\<lparr>event = ''start'', data = ''{}''\<rparr>] @ ?e # []"
    by code_simp
  have M: "(case parseError exampleJSON (data ?e) of
                 None \<Rightarrow> ''Error en streaming''
               | Some p \<Rightarrow>
                   (case message p of
                      None \<Rightarrow> ''Error en streaming''
                    | Some JNull \<Rightarrow> ''Error en streaming''
                    | Some (JStr s) \<Rightarrow> s
                    | Some w \<Rightarrow> (case ToString (numberToString exampleJSON) w of
                                  Some t \<Rightarrow> t
                                | None \<Rightarrow> typeErrorMessage exampleJSON)))
           = ''fallo''"
    by code_simp
  have pre: "\<forall>x\<in>set [\<lparr>event = ''start'', data = ''{}''\<rparr>]. event x \<noteq> ''final'' \<and> event x \<noteq> ''error''"
    by simp
  have e: "event ?e = ''error''" by simp
  have l: "\<not> loading ?v" by (simp add: initialUi_def)
  have t: "trim (input ?v) \<noteq> [] \<or> file' ?v \<noteq> None" by code_simp
  show ?thesis
    using stream_error_shown [OF sseResponse_streams(2,3,4,5) ev pre e l t,
        where J = exampleJSON and formData = "[]" and a = "''a1''" and u = waitingUi
          and ?uuid1.0 = "''u1''" and ?uuid2.0 = "''a1''"]
    unfolding Let_def M by simp
qed

text \<open>
  Claim C4 as it is worded fails when the \<^verbatim>\<open>message\<close> of the payload is not a string: for
  the number \<^verbatim>\<open>123\<close> the operator \<^verbatim>\<open>??\<close> keeps it, and the user reads \<^verbatim>\<open>Error: 123\<close>, not
  \<^verbatim>\<open>Error: Error en streaming\<close>.
\<close>

theorem stream_error_number_counterexample:
  \<open>parseError exampleJSON ''{"message":123}'' = Some \<lparr>message = Some (JNum 123)\<rparr> \<and>
   sseEvents ''event: error\<newline>data: {"message":123}\<newline>\<newline>''
     = [\<lparr>event = ''error'', data = ''{"message":123}''\<rparr>] \<and>
   sendMessage exampleJSON
     (answer (sseResponse [''event: error\<newline>data: {"message":123}\<newline>\<newline>'']))
     ''u1'' ''a1'' (initialUi\<lparr>input := ''hola''\<rparr>)
   = (\<lparr>conversationId = [], input = [], file' = None,
       messages = [\<lparr>msg_id = ''u1'', msg_role = user, msg_text = ''hola'', msg_data = None\<rparr>,
                   \<lparr>msg_id = ''a1'', msg_role = assistant, msg_text = ''Error: 123'',
                    msg_data = None\<rparr>],
       loading = False\<rparr>,
      [[(''message'', Text ''hola'')]])\<close>
  by code_simp

section \<open>The conversation identifier\<close>








end
